theory Spec2Isabelle
  imports Main
begin

section \<open>Strings\<close>

text \<open>
  Python strings are modelled as \<open>string\<close> (lists of \<open>char\<close>).  A \<open>char\<close> stands for the
  code point of the same number, so the model covers text whose code points are below 256;
  the character classes below are the ones Python uses on that range.
\<close>

definition code :: "char \<Rightarrow> nat" where
  "code c = of_char c"

text \<open>\<open>str.isspace\<close> on one character; also the class \<open>\s\<close> of the \<open>re\<close> module.\<close>

definition is_space :: "char \<Rightarrow> bool" where
  "is_space c = (let n = code c in
     (9 \<le> n \<and> n \<le> 13) \<or> (28 \<le> n \<and> n \<le> 32) \<or> n = 133 \<or> n = 160)"

text \<open>The class \<open>\d\<close>.\<close>

definition is_digit :: "char \<Rightarrow> bool" where
  "is_digit c = (let n = code c in 48 \<le> n \<and> n \<le> 57)"

text \<open>The class \<open>\w\<close>: alphanumeric characters and the underscore.\<close>

definition is_word :: "char \<Rightarrow> bool" where
  "is_word c = (let n = code c in
     (48 \<le> n \<and> n \<le> 57) \<or> (65 \<le> n \<and> n \<le> 90) \<or> (97 \<le> n \<and> n \<le> 122) \<or> n = 95
     \<or> n = 170 \<or> n = 178 \<or> n = 179 \<or> n = 181 \<or> n = 185 \<or> n = 186
     \<or> (188 \<le> n \<and> n \<le> 190) \<or> (192 \<le> n \<and> n \<le> 214) \<or> (216 \<le> n \<and> n \<le> 246)
     \<or> 248 \<le> n)"

text \<open>\<open>str.lower\<close>.\<close>

definition lower_char :: "char \<Rightarrow> char" where
  "lower_char c = (let n = code c in
     if (65 \<le> n \<and> n \<le> 90) \<or> (192 \<le> n \<and> n \<le> 222 \<and> n \<noteq> 215)
     then char_of (n + 32) else c)"

definition lower :: "string \<Rightarrow> string" where
  "lower s = map lower_char s"

text \<open>\<open>str.strip()\<close> without argument, and \<open>str.strip(chars)\<close>.\<close>

definition strip_chars :: "(char \<Rightarrow> bool) \<Rightarrow> string \<Rightarrow> string" where
  "strip_chars p s = rev (dropWhile p (rev (dropWhile p s)))"

definition strip :: "string \<Rightarrow> string" where
  "strip s = strip_chars is_space s"

text \<open>\<open>s.startswith(p)\<close> and the substring test \<open>needle in hay\<close>.\<close>

fun startswith :: "string \<Rightarrow> string \<Rightarrow> bool" where
  "startswith s [] = True"
| "startswith [] (p # ps) = False"
| "startswith (c # cs) (p # ps) = (c = p \<and> startswith cs ps)"

fun contains :: "string \<Rightarrow> string \<Rightarrow> bool" where
  "contains [] needle = (needle = [])"
| "contains (c # cs) needle = (startswith (c # cs) needle \<or> contains cs needle)"

text \<open>\<open>sep.join(parts)\<close>.\<close>

fun join :: "string \<Rightarrow> string list \<Rightarrow> string" where
  "join sep [] = []"
| "join sep [p] = p"
| "join sep (p # q # ps) = p @ sep @ join sep (q # ps)"

section \<open>License gate\<close>

text \<open>
  The metadata is a dictionary whose entry \<open>metadata\<close> is a dictionary of text fields.
  \<open>m.get(k, "") or ""\<close> reads a missing key as the empty string.
\<close>

type_synonym meta = "string \<rightharpoonup> (string \<rightharpoonup> string)"

definition get_str :: "(string \<rightharpoonup> string) \<Rightarrow> string \<Rightarrow> string" where
  "get_str m k = (case m k of None \<Rightarrow> [] | Some v \<Rightarrow> v)"

definition allow_markers :: "string list" where
  "allow_markers =
     [''creativecommons.org'', ''cc-by'', ''cc0'', ''public domain'', ''publicdomain'',
      ''no known copyright'']"

definition deny_markers :: "string list" where
  "deny_markers =
     [''all rights reserved'', ''copyright'', ''no redistribution'', ''permission required'']"

definition joined_rights :: "meta \<Rightarrow> string" where
  "joined_rights meta =
     (let m = (case meta ''metadata'' of None \<Rightarrow> Map.empty | Some d \<Rightarrow> d);
          licenseurl = lower (get_str m ''licenseurl'');
          rights = lower (get_str m ''rights'');
          possible = [licenseurl, rights]
      in join '' | '' (filter (\<lambda>p. p \<noteq> []) possible))"

definition is_openly_licensed :: "meta \<Rightarrow> bool \<times> string" where
  "is_openly_licensed meta =
     (let joined = joined_rights meta in
      case find (\<lambda>d. contains joined d) deny_markers of
        Some d \<Rightarrow> (False, ''Blocked by rights metadata: '' @ d)
      | None \<Rightarrow>
          (case find (\<lambda>a. contains joined a) allow_markers of
             Some a \<Rightarrow> (True, ''Open license detected'')
           | None \<Rightarrow> (False, ''No clear open license in metadata (licenseurl/rights).'')))"

section \<open>Numbers as text\<close>

text \<open>\<open>str(n)\<close> for an integer: decimal digits, with a minus sign when negative.\<close>

fun str_nat :: "nat \<Rightarrow> string" where
  "str_nat n = (if n < 10 then [char_of (48 + n)]
                else str_nat (n div 10) @ [char_of (48 + n mod 10)])"

definition str_int :: "int \<Rightarrow> string" where
  "str_int i = (if i < 0 then CHR ''-'' # str_nat (nat (- i)) else str_nat (nat i))"

text \<open>\<open>a or b\<close> on strings: the first one unless it is empty.\<close>

definition str_or :: "string \<Rightarrow> string \<Rightarrow> string" where
  "str_or a b = (if a \<noteq> [] then a else b)"

section \<open>Download orchestrator\<close>

text \<open>
  A transfer ends in success or in one of these failures.  The Python functions return a
  pair of a flag and a message; \<open>Inr ()\<close> stands for \<open>(True, "")\<close> and \<open>Inl e\<close> for
  \<open>(False, message of e)\<close>.  The message of a size mismatch formats both sizes with
  floating-point arithmetic (\<open>human_size\<close>); the model keeps the two sizes instead.
\<close>

datatype dl_error =
    SpawnError string
  | Canceled
  | ChildFailed string
  | SizeMismatch string int int

type_synonym dl_result = "dl_error + unit"

text \<open>
  What one round of the polling loop observes: the exit code of the child if it has exited
  (\<open>p.poll()\<close>), the bytes on disk, and the key read without blocking (\<open>-1\<close> when none).
\<close>

record poll =
  rc :: "int option"
  written :: int
  key :: int

text \<open>
  The child process as the loop sees it: the observations of the successive rounds, and what
  \<open>communicate\<close> returns once it has exited.  A child that never exits within the observed
  rounds leaves the loop running: the loop functions then return \<open>None\<close>.
\<close>

record child =
  polls :: "poll list"
  out :: string
  err :: string

datatype spawn = SpawnFailed string | Spawned child

text \<open>The fields of the application state that a transfer writes (speed and ETA are floats
  and are left out).\<close>

record dl_state =
  dl_cancel_requested :: bool
  dl_current_name :: string
  dl_current_total :: int
  dl_current_written :: int

definition cancel_key :: "int \<Rightarrow> bool" where
  "cancel_key ch = (ch = 99 \<or> ch = 67)"

text \<open>\<open>actual\<close> is what \<open>safe_getsize\<close> reads for the staged file.\<close>

definition verify_expected_size :: "int \<Rightarrow> string \<Rightarrow> int \<Rightarrow> dl_result" where
  "verify_expected_size actual filename expected_size =
     (if expected_size \<le> 0 then Inr ()
      else if actual \<noteq> expected_size then Inl (SizeMismatch filename actual expected_size)
      else Inr ())"

definition exit_failure :: "int \<Rightarrow> string \<Rightarrow> string \<Rightarrow> dl_error" where
  "exit_failure r out_text err_text =
     (let msg = strip (str_or err_text out_text) in
      ChildFailed (str_or msg (''download failed (code '' @ str_int r @ '')'')))"

text \<open>The result of a transfer without the state: \<open>None\<close> while the loop has not returned.\<close>

definition outcome :: "(dl_result \<times> dl_state) option \<Rightarrow> dl_result option" where
  "outcome r = map_option fst r"

text \<open>What one round does to the state before it looks at the exit code.\<close>

definition poll_update :: "dl_state \<Rightarrow> poll \<Rightarrow> dl_state" where
  "poll_update st p =
     (let st1 = st\<lparr>dl_current_written := written p\<rparr>
      in if cancel_key (key p) then st1\<lparr>dl_cancel_requested := True\<rparr> else st1)"

fun download_one_loop ::
  "dl_state \<Rightarrow> poll list \<Rightarrow> string \<Rightarrow> string \<Rightarrow> int \<Rightarrow> string \<Rightarrow> int
     \<Rightarrow> (dl_result \<times> dl_state) option" where
  "download_one_loop st [] out_text err_text actual filename expected_size = None"
| "download_one_loop st (p # ps) out_text err_text actual filename expected_size =
     (let st2 = poll_update st p
      in case rc p of
           None \<Rightarrow> download_one_loop st2 ps out_text err_text actual filename expected_size
         | Some r \<Rightarrow>
             if dl_cancel_requested st2 then Some (Inl Canceled, st2)
             else if r \<noteq> 0 then Some (Inl (exit_failure r out_text err_text), st2)
             else Some (verify_expected_size actual filename expected_size, st2))"

definition download_one_with_progress ::
  "dl_state \<Rightarrow> spawn \<Rightarrow> int \<Rightarrow> string \<Rightarrow> int \<Rightarrow> (dl_result \<times> dl_state) option" where
  "download_one_with_progress st sp actual filename expected_size =
     (case sp of
        SpawnFailed e \<Rightarrow> Some (Inl (SpawnError (''download failed: '' @ e)), st)
      | Spawned c \<Rightarrow>
          download_one_loop
            (st\<lparr>dl_cancel_requested := False, dl_current_name := filename,
                dl_current_total := expected_size, dl_current_written := 0\<rparr>)
            (polls c) (out c) (err c) actual filename expected_size)"

fun download_glob_loop ::
  "dl_state \<Rightarrow> poll list \<Rightarrow> string \<Rightarrow> string \<Rightarrow> (dl_result \<times> dl_state) option" where
  "download_glob_loop st [] out_text err_text = None"
| "download_glob_loop st (p # ps) out_text err_text =
     (let st2 = poll_update st p
      in case rc p of
           None \<Rightarrow> download_glob_loop st2 ps out_text err_text
         | Some r \<Rightarrow>
             if dl_cancel_requested st2 then Some (Inl Canceled, st2)
             else if r \<noteq> 0 then Some (Inl (exit_failure r out_text err_text), st2)
             else Some (Inr (), st2))"

definition download_glob_with_progress ::
  "dl_state \<Rightarrow> spawn \<Rightarrow> string \<Rightarrow> int \<Rightarrow> (dl_result \<times> dl_state) option" where
  "download_glob_with_progress st sp glob_pat expected_total =
     (case sp of
        SpawnFailed e \<Rightarrow> Some (Inl (SpawnError (''download failed: '' @ e)), st)
      | Spawned c \<Rightarrow>
          download_glob_loop
            (st\<lparr>dl_cancel_requested := False, dl_current_name := ''--glob '' @ glob_pat,
                dl_current_total := expected_total, dl_current_written := 0\<rparr>)
            (polls c) (out c) (err c))"

section \<open>Application state\<close>

record SearchResult =
  "identifier" :: string
  title :: string
  year :: string
  creator :: string

text \<open>\<open>IAFile\<close>; its field \<open>size\<close> is named \<open>size_bytes\<close> here.\<close>

record IAFile =
  name :: string
  size_bytes :: int
  fmt :: string

text \<open>
  The favorites store.  An entry of \<open>items\<close> is a dictionary with the keys \<open>identifier\<close>,
  \<open>title\<close>, \<open>year\<close> and \<open>creator\<close>, kept here as a \<open>SearchResult\<close>; an entry of \<open>files\<close> is a
  dictionary with the seven keys of \<open>fav_file\<close>.  \<open>folders\<close> maps a bucket name to its list
  of folder names.
\<close>

record fav_file =
  ff_identifier :: string
  ff_item_title :: string
  ff_year :: string
  ff_creator :: string
  ff_filename :: string
  ff_size :: int
  ff_fmt :: string

record favs_store =
  items :: "SearchResult list"
  files_fav :: "fav_file list"
  folders :: "string \<rightharpoonup> string list"

text \<open>The fields of \<open>RetroWaveIA\<close> that the modelled methods read or write.\<close>

record app =
  status :: string
  mode :: string
  query_text :: string
  query_built :: string
  media_filter :: string
  title_only :: bool
  page :: int
  results :: "SearchResult list"
  sel_r :: int
  files :: "IAFile list"
  last_bucket :: string
  focus :: string
  menu_idx :: int
  favs :: favs_store

section \<open>Favorites store\<close>

text \<open>\<open>save_favs\<close> writes the store to disk and leaves the state as it is; it is not modelled.\<close>

definition is_fav_item :: "app \<Rightarrow> string \<Rightarrow> bool" where
  "is_fav_item st ident_arg =
     (let ident = strip ident_arg
      in list_ex (\<lambda>it. strip (identifier it) = ident) (items (favs st)))"

definition toggle_fav_item :: "app \<Rightarrow> SearchResult \<Rightarrow> app" where
  "toggle_fav_item st r =
     (let ident = strip (identifier r) in
      if ident = [] then st
      else
        let its = items (favs st) in
        if is_fav_item st ident
        then st\<lparr>favs := (favs st)\<lparr>items := filter (\<lambda>it. strip (identifier it) \<noteq> ident) its\<rparr>,
                status := ''Removed favorite item.''\<rparr>
        else st\<lparr>favs := (favs st)\<lparr>items :=
                   \<lparr>identifier = identifier r, title = title r, year = year r,
                    creator = creator r\<rparr> # its\<rparr>,
                status := ''Added favorite item.''\<rparr>)"

definition file_fav_key :: "string \<Rightarrow> string \<Rightarrow> string" where
  "file_fav_key ident filename = strip ident @ ''::'' @ strip filename"

definition is_fav_file :: "app \<Rightarrow> string \<Rightarrow> string \<Rightarrow> bool" where
  "is_fav_file st ident filename =
     (let k = file_fav_key ident filename
      in list_ex (\<lambda>it. file_fav_key (ff_identifier it) (ff_filename it) = k)
           (files_fav (favs st)))"

definition toggle_fav_file :: "app \<Rightarrow> SearchResult \<Rightarrow> IAFile \<Rightarrow> app" where
  "toggle_fav_file st item f =
     (let ident = strip (identifier item); fname = strip (name f) in
      if ident = [] \<or> fname = [] then st
      else
        let fs = files_fav (favs st) in
        if is_fav_file st ident fname
        then st\<lparr>favs := (favs st)\<lparr>files_fav :=
                   filter (\<lambda>it. file_fav_key (ff_identifier it) (ff_filename it)
                                  \<noteq> file_fav_key ident fname) fs\<rparr>,
                status := ''Removed favorite file.''\<rparr>
        else st\<lparr>favs := (favs st)\<lparr>files_fav :=
                   \<lparr>ff_identifier = identifier item, ff_item_title = title item,
                    ff_year = year item, ff_creator = creator item, ff_filename = name f,
                    ff_size = size_bytes f, ff_fmt = fmt f\<rparr> # fs\<rparr>,
                status := ''Added favorite file.''\<rparr>)"

section \<open>Query builder\<close>

text \<open>
  \<open>str.upper\<close>.  The sharp s becomes \<open>SS\<close>.  The micro sign and the y with diaeresis have
  their capitals beyond code point 255 and are kept as they are: \<open>build_query\<close> only looks
  for \<open>AND\<close> and \<open>OR\<close> between spaces in the result.
\<close>

definition upper_char :: "char \<Rightarrow> string" where
  "upper_char c = (let n = code c in
     if (97 \<le> n \<and> n \<le> 122) \<or> (224 \<le> n \<and> n \<le> 254 \<and> n \<noteq> 247) then [char_of (n - 32)]
     else if n = 223 then ''SS''
     else [c])"

definition upper :: "string \<Rightarrow> string" where
  "upper s = concat (map upper_char s)"

definition build_query :: "string \<Rightarrow> string \<Rightarrow> bool \<Rightarrow> string" where
  "build_query user_text filter_name only_title =
     (let s = strip user_text in
      if s = [] then []
      else
        let up = upper s;
            looks_advanced =
              (contains s ''mediatype:'' \<or> contains s ''title:'' \<or> contains s ''collection:''
               \<or> contains s ''identifier:'' \<or> contains s ''licenseurl:''
               \<or> contains s ''rights:'' \<or> contains up '' AND '' \<or> contains up '' OR '')
        in if looks_advanced then s
           else
             let base = (if only_title then ''title:('' @ [CHR 0x22] @ s @ [CHR 0x22] @ '')'' else s)
             in if filter_name \<noteq> [] \<and> filter_name \<noteq> ''any''
                then base @ '' AND mediatype:'' @ filter_name
                else base)"

section \<open>Search and pagination\<close>

definition ROWS_PER_PAGE :: int where
  "ROWS_PER_PAGE = 30"

text \<open>
  The search collaborator: what \<open>run_cmd\<close> returns for the \<open>curl\<close> call (exit code, standard
  output, standard error) and, for the output, the list \<open>response.docs\<close> that \<open>json.loads\<close>
  finds in it (\<open>None\<close> when the output is not JSON).  A document is a dictionary, its values
  read through \<open>str\<close>.  The collaborator is a function of the query, the number of rows and
  the start offset.
\<close>

type_synonym doc = "string \<rightharpoonup> string"

datatype curl_reply = CurlReply int string string "doc list option"

type_synonym searcher = "string \<Rightarrow> int \<Rightarrow> int \<Rightarrow> curl_reply"

definition result_of_doc :: "doc \<Rightarrow> SearchResult option" where
  "result_of_doc d =
     (let ident = strip (get_str d ''identifier'') in
      if ident = [] then None
      else Some \<lparr>identifier = ident,
                 title = str_or (strip (get_str d ''title'')) ''(no title)'',
                 year = strip (get_str d ''year''),
                 creator = strip (get_str d ''creator'')\<rparr>)"

definition ia_search_via_curl ::
  "searcher \<Rightarrow> string \<Rightarrow> int \<Rightarrow> int \<Rightarrow> SearchResult list \<times> string" where
  "ia_search_via_curl curl query rows pg =
     (let start = max 0 ((pg - 1) * rows) in
      case curl query rows start of
        CurlReply c out_text err_text parsed \<Rightarrow>
          if c \<noteq> 0
          then ([], str_or (strip (str_or err_text out_text))
                      (''search failed (code '' @ str_int c @ '')''))
          else (case parsed of
                  None \<Rightarrow> ([], ''search returned non-JSON'')
                | Some docs \<Rightarrow> (List.map_filter result_of_doc docs, [])))"

text \<open>\<open>render\<close> draws the screen; its only write to the state is the mode when the terminal
  is too small (\<open>too_small\<close> is what \<open>term_too_small\<close> answers).\<close>

definition render :: "bool \<Rightarrow> app \<Rightarrow> app" where
  "render too_small st = (if too_small then st\<lparr>mode := ''TOO_SMALL''\<rparr> else st)"

definition do_search :: "searcher \<Rightarrow> bool \<Rightarrow> app \<Rightarrow> bool \<Rightarrow> app" where
  "do_search curl too_small st reset_page =
     (let st1 = (if reset_page then st\<lparr>page := 1\<rparr> else st);
          st2 = st1\<lparr>query_built :=
                  build_query (query_text st1) (media_filter st1) (title_only st1)\<rparr>
      in if query_built st2 = []
         then st2\<lparr>status := ''Select [Search] in the menu to search.''\<rparr>
         else
           let st3 = render too_small (st2\<lparr>status := ''Searching...''\<rparr>);
               (res, err_text) = ia_search_via_curl curl (query_built st3) ROWS_PER_PAGE (page st3);
               st4 = st3\<lparr>results := res\<rparr>
           in if err_text \<noteq> [] then st4\<lparr>status := err_text\<rparr>
              else st4\<lparr>sel_r := 0, mode := ''RESULTS'', focus := ''LIST'',
                       status := ''Found '' @ str_int (int (length (results st4)))
                                 @ '' results. Use arrows, then [Open].''\<rparr>)"

definition next_page :: "searcher \<Rightarrow> bool \<Rightarrow> app \<Rightarrow> app" where
  "next_page curl too_small st =
     (if query_text st = [] then st\<lparr>status := ''No search yet. Choose [Search].''\<rparr>
      else
        let saved_focus = focus st;
            saved_menu_idx = menu_idx st;
            saved_page = page st;
            st1 = do_search curl too_small (st\<lparr>page := page st + 1\<rparr>) False;
            st2 = (if results st1 = []
                   then st1\<lparr>page := saved_page,
                            status := ''No more results (rolled back to previous page).''\<rparr>
                   else st1)
        in st2\<lparr>focus := saved_focus, menu_idx := saved_menu_idx\<rparr>)"

definition prev_page :: "searcher \<Rightarrow> bool \<Rightarrow> app \<Rightarrow> app" where
  "prev_page curl too_small st =
     (if query_text st = [] then st\<lparr>status := ''No search yet. Choose [Search].''\<rparr>
      else if page st \<le> 1 then st\<lparr>status := ''Already on first page.''\<rparr>
      else
        let saved_focus = focus st;
            saved_menu_idx = menu_idx st;
            saved_page = page st;
            st1 = do_search curl too_small (st\<lparr>page := page st - 1\<rparr>) False;
            st2 = (if results st1 = []
                   then st1\<lparr>page := saved_page,
                            status := ''No results on that page (rolled back).''\<rparr>
                   else st1)
        in st2\<lparr>focus := saved_focus, menu_idx := saved_menu_idx\<rparr>)"

section \<open>Paths\<close>

definition MEDIA_ROOT :: string where
  "MEDIA_ROOT = ''/mnt/ssd/media''"

text \<open>\<open>os.path.join\<close> of two components (POSIX).\<close>

definition os_path_join :: "string \<Rightarrow> string \<Rightarrow> string" where
  "os_path_join a b =
     (if startswith b ''/'' then b
      else if a = [] \<or> (a \<noteq> [] \<and> last a = CHR ''/'') then a @ b
      else a @ ''/'' @ b)"

definition STAGING_ROOT :: string where
  "STAGING_ROOT = os_path_join MEDIA_ROOT ''.ia_staging''"

definition BUCKET_TV :: string where
  "BUCKET_TV = os_path_join MEDIA_ROOT ''TV''"

definition BUCKET_MOVIES :: string where
  "BUCKET_MOVIES = os_path_join MEDIA_ROOT ''Movies''"

definition BUCKET_OTHER :: string where
  "BUCKET_OTHER = os_path_join MEDIA_ROOT ''Other''"

definition staging_file_path :: "string \<Rightarrow> string \<Rightarrow> string" where
  "staging_file_path ident filename = os_path_join (os_path_join STAGING_ROOT ident) filename"

text \<open>\<open>str.rfind\<close> of one character: the index of its last occurrence, or \<open>-1\<close>.\<close>

definition rfind :: "char \<Rightarrow> string \<Rightarrow> int" where
  "rfind c s =
     (if c \<in> set s then int (length s) - 1 - int (length (takeWhile (\<lambda>x. x \<noteq> c) (rev s)))
      else - 1)"

definition basename :: "string \<Rightarrow> string" where
  "basename p = drop (nat (rfind CHR ''/'' p + 1)) p"

text \<open>
  \<open>os.path.splitext\<close>: the extension starts at the last dot of the last component, unless
  only dots come before it in that component.
\<close>

definition splitext :: "string \<Rightarrow> string \<times> string" where
  "splitext p =
     (let sepIndex = rfind CHR ''/'' p;
          dotIndex = rfind CHR ''.'' p
      in if dotIndex > sepIndex
            \<and> list_ex (\<lambda>c. c \<noteq> CHR ''.'')
                 (take (nat (dotIndex - (sepIndex + 1))) (drop (nat (sepIndex + 1)) p))
         then (take (nat dotIndex) p, drop (nat dotIndex) p)
         else (p, []))"

section \<open>Regular expressions\<close>

text \<open>
  \<open>re.sub\<close> for a pattern that is one character class: every character of the class is
  replaced.  And for a pattern that is a character class under \<open>+\<close>: every maximal run of
  characters of the class is replaced.
\<close>

definition sub_class :: "(char \<Rightarrow> bool) \<Rightarrow> string \<Rightarrow> string \<Rightarrow> string" where
  "sub_class p repl s = concat (map (\<lambda>c. if p c then repl else [c]) s)"

function sub_class_plus :: "(char \<Rightarrow> bool) \<Rightarrow> string \<Rightarrow> string \<Rightarrow> string" where
  "sub_class_plus p repl [] = []"
| "sub_class_plus p repl (c # cs) =
     (if p c then repl @ sub_class_plus p repl (dropWhile p cs)
      else c # sub_class_plus p repl cs)"
  by pat_completeness auto
termination
  by (relation "measure (\<lambda>(p, repl, s). length s)")
     (auto simp: le_imp_less_Suc length_dropWhile_le)

text \<open>
  The other patterns of the program are built from literals, classes, \<open>\d\<close>, \<open>\b\<close>,
  sequence, alternation, \<open>?\<close> and groups.  \<open>rx_match\<close> is the backtracking matcher of the
  \<open>re\<close> module on them: alternatives are tried from left to right, \<open>?\<close> tries its operand
  first.  The position is the text before it (reversed), the text after it and the groups
  captured so far; \<open>k\<close> is what remains to be matched.
\<close>

datatype rx =
    Eps
  | Chr char
  | Cls "char list"
  | Digit
  | WordB
  | Seq rx rx
  | Alt rx rx
  | Opt rx
  | Grp nat rx

type_synonym rx_pos = "string \<times> string \<times> (nat \<times> string) list"

definition at_word_boundary :: "string \<Rightarrow> string \<Rightarrow> bool" where
  "at_word_boundary left right =
     ((left \<noteq> [] \<and> is_word (hd left)) \<noteq> (right \<noteq> [] \<and> is_word (hd right)))"

definition chr_eq :: "bool \<Rightarrow> char \<Rightarrow> char \<Rightarrow> bool" where
  "chr_eq ignorecase c x = (if ignorecase then lower_char x = lower_char c else x = c)"

fun rx_match :: "bool \<Rightarrow> rx \<Rightarrow> rx_pos \<Rightarrow> (rx_pos \<Rightarrow> 'a option) \<Rightarrow> 'a option" where
  "rx_match ic Eps pos k = k pos"
| "rx_match ic (Chr c) (left, right, caps) k =
     (case right of [] \<Rightarrow> None
      | x # xs \<Rightarrow> if chr_eq ic c x then k (x # left, xs, caps) else None)"
| "rx_match ic (Cls cs) (left, right, caps) k =
     (case right of [] \<Rightarrow> None
      | x # xs \<Rightarrow> if list_ex (\<lambda>c. chr_eq ic c x) cs then k (x # left, xs, caps) else None)"
| "rx_match ic Digit (left, right, caps) k =
     (case right of [] \<Rightarrow> None
      | x # xs \<Rightarrow> if is_digit x then k (x # left, xs, caps) else None)"
| "rx_match ic WordB (left, right, caps) k =
     (if at_word_boundary left right then k (left, right, caps) else None)"
| "rx_match ic (Seq a b) pos k = rx_match ic a pos (\<lambda>pos'. rx_match ic b pos' k)"
| "rx_match ic (Alt a b) pos k =
     (case rx_match ic a pos k of Some r \<Rightarrow> Some r | None \<Rightarrow> rx_match ic b pos k)"
| "rx_match ic (Opt a) pos k =
     (case rx_match ic a pos k of Some r \<Rightarrow> Some r | None \<Rightarrow> k pos)"
| "rx_match ic (Grp n a) (left, right, caps) k =
     rx_match ic a (left, right, caps)
       (\<lambda>(left', right', caps').
           k (left', right', (n, take (length right - length right') right) # caps'))"

text \<open>A match: where it starts, the text matched, the text after it, the groups.\<close>

record rx_found =
  m_start :: nat
  m_text :: string
  m_rest :: string
  m_groups :: "(nat \<times> string) list"

definition match_at :: "bool \<Rightarrow> rx \<Rightarrow> string \<Rightarrow> string \<Rightarrow> rx_found option" where
  "match_at ic r left right =
     (case rx_match ic r (left, right, []) Some of
        None \<Rightarrow> None
      | Some (left', right', caps) \<Rightarrow>
          Some \<lparr>m_start = length left,
                m_text = take (length right - length right') right,
                m_rest = right', m_groups = caps\<rparr>)"

text \<open>\<open>re.search\<close>: the match at the leftmost position that has one.\<close>

fun rx_search_from :: "bool \<Rightarrow> rx \<Rightarrow> string \<Rightarrow> string \<Rightarrow> rx_found option" where
  "rx_search_from ic r left [] = match_at ic r left []"
| "rx_search_from ic r left (c # cs) =
     (case match_at ic r left (c # cs) of
        Some m \<Rightarrow> Some m
      | None \<Rightarrow> rx_search_from ic r (c # left) cs)"

definition rx_search :: "bool \<Rightarrow> rx \<Rightarrow> string \<Rightarrow> rx_found option" where
  "rx_search ic r s = rx_search_from ic r [] s"

definition group :: "rx_found \<Rightarrow> nat \<Rightarrow> string" where
  "group m n = (case map_of (m_groups m) n of None \<Rightarrow> [] | Some g \<Rightarrow> g)"

text \<open>
  \<open>re.sub\<close>: the matches are replaced from left to right, the search going on after each
  match.  (A match of the empty text is replaced and the next character kept; the patterns
  of the program never match the empty text.)
\<close>

function rx_sub_from :: "bool \<Rightarrow> rx \<Rightarrow> string \<Rightarrow> string \<Rightarrow> string \<Rightarrow> string" where
  "rx_sub_from ic r repl left right =
     (case match_at ic r left right of
        Some m \<Rightarrow>
          if length (m_rest m) < length right
          then repl @ rx_sub_from ic r repl (rev (m_text m) @ left) (m_rest m)
          else (case right of [] \<Rightarrow> repl
                | c # cs \<Rightarrow> repl @ c # rx_sub_from ic r repl (c # left) cs)
      | None \<Rightarrow>
          (case right of [] \<Rightarrow> []
           | c # cs \<Rightarrow> c # rx_sub_from ic r repl (c # left) cs))"
  by pat_completeness auto
termination
  by (relation "measure (\<lambda>(ic, r, repl, left, right). length right)") auto

definition rx_sub :: "bool \<Rightarrow> rx \<Rightarrow> string \<Rightarrow> string \<Rightarrow> string" where
  "rx_sub ic r repl s = rx_sub_from ic r repl [] s"

text \<open>A literal word, and a list of alternatives.\<close>

fun lit :: "string \<Rightarrow> rx" where
  "lit [] = Eps"
| "lit [c] = Chr c"
| "lit (c # cs) = Seq (Chr c) (lit cs)"

fun alts :: "rx list \<Rightarrow> rx" where
  "alts [] = Eps"
| "alts [r] = r"
| "alts (r # rs) = Alt r (alts rs)"

section \<open>Naming and bucket classifier\<close>

definition forbidden_char :: "char \<Rightarrow> bool" where
  "forbidden_char c =
     (c = CHR ''/'' \<or> c = CHR 0x5C \<or> c = CHR '':'' \<or> c = CHR ''*'' \<or> c = CHR ''?''
      \<or> c = CHR 0x22 \<or> c = CHR ''<'' \<or> c = CHR ''>'' \<or> c = CHR ''|'')"

definition sanitize_folder :: "string \<Rightarrow> string" where
  "sanitize_folder name_arg =
     (let n1 = strip name_arg;
          n2 = sub_class_plus forbidden_char [] n1;
          n3 = strip (sub_class_plus is_space '' '' n2)
      in str_or n3 ''Unknown'')"

text \<open>\<open>int(text)\<close> for a text of decimal digits.\<close>

definition int_of_digits :: "string \<Rightarrow> int" where
  "int_of_digits ds = foldl (\<lambda>acc c. 10 * acc + (int (code c) - 48)) 0 ds"

text \<open>The pattern \<open>[Ss](\d{1,2})[Ee](\d{1,2})\<close>.\<close>

definition sxxeyy_rx :: rx where
  "sxxeyy_rx =
     Seq (Cls ''Ss'') (Seq (Grp 1 (Seq Digit (Opt Digit)))
       (Seq (Cls ''Ee'') (Grp 2 (Seq Digit (Opt Digit)))))"

definition detect_sxxeyy :: "string \<Rightarrow> (int \<times> int) option" where
  "detect_sxxeyy text =
     (case rx_search False sxxeyy_rx text of
        None \<Rightarrow> None
      | Some m \<Rightarrow> Some (int_of_digits (group m 1), int_of_digits (group m 2)))"

definition VIDEO_EXTS :: "string list" where
  "VIDEO_EXTS = [''.mp4'', ''.mkv'', ''.avi'', ''.mov'', ''.webm'', ''.m4v'']"

definition VIDEO_FORMAT_HINTS :: "string list" where
  "VIDEO_FORMAT_HINTS =
     [''h.264'', ''h264'', ''mpeg4'', ''mp4'', ''matroska'', ''webm'', ''quicktime'', ''avi'']"

definition LARGE_VIDEO_BYTES :: int where
  "LARGE_VIDEO_BYTES = 500 * 1024 * 1024"

definition is_video_file :: "string \<Rightarrow> string \<Rightarrow> bool" where
  "is_video_file name_arg fmt_arg =
     (let ext = snd (splitext (lower name_arg)) in
      if ext \<in> set VIDEO_EXTS then True
      else let fmt_l = lower fmt_arg in list_ex (\<lambda>h. contains fmt_l h) VIDEO_FORMAT_HINTS)"

text \<open>The pattern \<open>\b(19\d{2}|20\d{2})\b\<close>.\<close>

definition year_word_rx :: rx where
  "year_word_rx =
     Seq WordB (Seq (Grp 1 (Alt (Seq (lit ''19'') (Seq Digit Digit))
                                (Seq (lit ''20'') (Seq Digit Digit)))) WordB)"

text \<open>The pattern of scene-release tags, compiled with \<open>re.IGNORECASE\<close>.\<close>

definition scene_rx :: rx where
  "scene_rx =
     Seq WordB (Seq (alts
       [lit ''2160p'', lit ''1080p'', lit ''720p'', lit ''480p'',
        lit ''bluray'', lit ''brrip'', lit ''bdrip'', lit ''webrip'', lit ''web-dl'',
        lit ''hdrip'', lit ''dvdrip'',
        lit ''x264'', lit ''x265'', lit ''h264'', lit ''h265'', lit ''hevc'', lit ''av1'',
        Seq (lit ''aac'') (Seq (Opt (Chr CHR ''2'')) (lit ''.0'')), lit ''aac'',
        Seq (lit ''dts'') (Opt (Seq (Opt (Chr CHR ''-'')) (lit ''hd''))),
        Seq (lit ''dd'') (Seq (Opt (Chr CHR ''p'')) (Seq (Opt (Chr CHR ''5'')) (lit ''.1''))),
        lit ''ac3'',
        lit ''proper'', lit ''repack'', lit ''extended'', lit ''remastered'', lit ''unrated'',
        lit ''yify'', lit ''yts'', lit ''rarbg'']) WordB)"

definition auto_clean_movie_folder_name :: "string \<Rightarrow> string \<Rightarrow> string" where
  "auto_clean_movie_folder_name item_title filename =
     (let raw0 = str_or (strip item_title) (strip filename);
          raw1 = basename raw0;
          raw2 = fst (splitext raw1);
          raw3 = sub_class (\<lambda>c. c \<in> set ''[](){}'') '' '' raw2;
          raw4 = sub_class_plus (\<lambda>c. c = CHR ''.'' \<or> c = CHR ''_'') '' '' raw3;
          raw = strip (sub_class_plus is_space '' '' raw4);
          year_match = rx_search False year_word_rx raw;
          yr = (case year_match of None \<Rightarrow> [] | Some m \<Rightarrow> group m 1);
          title_part0 = (case year_match of None \<Rightarrow> raw | Some m \<Rightarrow> take (m_start m) raw);
          title_part1 = rx_sub True scene_rx '' '' title_part0;
          title_part = strip_chars (\<lambda>c. c \<in> set '' -._'')
                         (sub_class_plus is_space '' '' title_part1);
          cleaned_title = sanitize_folder (str_or title_part raw)
      in if yr \<noteq> [] then sanitize_folder (cleaned_title @ '' ('' @ yr @ '')'')
         else cleaned_title)"

text \<open>The patterns \<open>\((19|20)\d{2}\)\<close> and \<open>(19|20)\d{2}\<close> of \<open>has_year_hint\<close>.\<close>

definition year_paren_rx :: rx where
  "year_paren_rx =
     Seq (Chr CHR ''('') (Seq (Grp 1 (Alt (lit ''19'') (lit ''20'')))
       (Seq Digit (Seq Digit (Chr CHR '')''))))"

definition year_plain_rx :: rx where
  "year_plain_rx = Seq (Grp 1 (Alt (lit ''19'') (lit ''20''))) (Seq Digit Digit)"

definition has_year_hint :: "string \<Rightarrow> bool" where
  "has_year_hint s =
     (if s = [] then False
      else rx_search False year_paren_rx s \<noteq> None \<or> rx_search False year_plain_rx s \<noteq> None)"

definition is_single_large_video :: "app \<Rightarrow> string \<Rightarrow> bool" where
  "is_single_large_video st name_arg =
     (let video_files = filter (\<lambda>f. is_video_file (name f) (fmt f)) (files st);
          large_video_files = filter (\<lambda>f. size_bytes f \<ge> LARGE_VIDEO_BYTES) video_files
      in length large_video_files = 1 \<and> name (hd large_video_files) = name_arg)"

definition valid_bucket :: "string \<Rightarrow> bool" where
  "valid_bucket b = (b = ''TV'' \<or> b = ''Movies'' \<or> b = ''Other'')"

text \<open>
  The bucket that \<open>choose_bucket_and_path\<close> settles on before it asks for a folder: the
  last bucket, overridden by an episode pattern or by a movie hint.
\<close>

definition decide_bucket :: "app \<Rightarrow> string \<Rightarrow> string \<Rightarrow> string" where
  "decide_bucket st filename item_title =
     (let ep = (case detect_sxxeyy filename of Some e \<Rightarrow> Some e
                | None \<Rightarrow> detect_sxxeyy item_title);
          bucket = (if valid_bucket (last_bucket st) then last_bucket st else ''Other'')
      in if ep \<noteq> None then ''TV''
         else if has_year_hint filename \<or> has_year_hint item_title
                 \<or> is_single_large_video st filename
              then ''Movies''
              else bucket)"

section \<open>Terminal and file system\<close>

text \<open>
  What the import reads from outside the program: the size of the terminal, the keys the
  user presses (in order; \<open>-1\<close> is a read that found no key), what
  \<open>time.strftime("%Y%m%d_%H%M%S")\<close> returns, and the disk: the regular files, as a map
  from path to content, and the directories, as the list of their paths.  Paths are compared
  as texts.  A staged path, when it exists, is a regular file.
\<close>

record world =
  term_h :: int
  term_w :: int
  keys :: "int list"
  stamp :: string
  fs :: "string \<rightharpoonup> string"
  dirs :: "string list"

text \<open>The exceptions that \<open>os.makedirs\<close> and \<open>shutil.move\<close> raise in the import;
  \<open>choose_bucket_and_path\<close> does not catch them.\<close>

datatype py_exc = FileExistsError | NotADirectoryError | FileNotFoundError | ShutilError

definition path_exists :: "world \<Rightarrow> string \<Rightarrow> bool" where
  "path_exists w p = (fs w p \<noteq> None \<or> p \<in> set (dirs w))"

definition isdir :: "world \<Rightarrow> string \<Rightarrow> bool" where
  "isdir w p = (p \<in> set (dirs w))"

text \<open>\<open>os.path.dirname\<close>.\<close>

definition dirname :: "string \<Rightarrow> string" where
  "dirname p =
     (let hd_part = take (nat (rfind CHR ''/'' p + 1)) p
      in if hd_part \<noteq> [] \<and> list_ex (\<lambda>c. c \<noteq> CHR ''/'') hd_part
         then rev (dropWhile (\<lambda>c. c = CHR ''/'') (rev hd_part))
         else hd_part)"

text \<open>The directories above a path: what stands before each of its separators.\<close>

definition dir_prefixes :: "string \<Rightarrow> string list" where
  "dir_prefixes p =
     filter (\<lambda>q. q \<noteq> [])
       (map (\<lambda>i. take i p) (filter (\<lambda>i. p ! i = CHR ''/'') [0..<length p]))"

text \<open>
  \<open>os.makedirs(d, exist_ok=True)\<close>: the directory and those above it exist afterwards; a
  regular file at the path or above it makes it raise.
\<close>

definition makedirs :: "world \<Rightarrow> string \<Rightarrow> py_exc + world" where
  "makedirs w d =
     (if fs w d \<noteq> None then Inl FileExistsError
      else if list_ex (\<lambda>q. fs w q \<noteq> None) (dir_prefixes d) then Inl NotADirectoryError
      else Inr (w\<lparr>dirs := dirs w @ dir_prefixes d @ [d]\<rparr>))"

text \<open>
  \<open>os.rename\<close> of a regular file: the directory of the new path must exist; a regular
  file at the new path is replaced.
\<close>

definition os_rename :: "world \<Rightarrow> string \<Rightarrow> string \<Rightarrow> py_exc + world" where
  "os_rename w src dst =
     (let parent = dirname dst in
      if fs w parent \<noteq> None then Inl NotADirectoryError
      else if \<not> (parent = [] \<or> parent = ''/'' \<or> isdir w parent) then Inl FileNotFoundError
      else Inr (w\<lparr>fs := ((fs w)(src := None))(dst := fs w src)\<rparr>))"

text \<open>
  \<open>shutil.move\<close> of a regular file: into the destination when that is a directory (an
  entry of the same name there makes it raise), onto the destination otherwise.  When the
  rename fails, the copy it falls back to fails with the same exception.
\<close>

definition shutil_move :: "world \<Rightarrow> string \<Rightarrow> string \<Rightarrow> py_exc + world" where
  "shutil_move w src dst =
     (if isdir w dst
      then (let real_dst = os_path_join dst
                             (basename (rev (dropWhile (\<lambda>c. c = CHR ''/'') (rev src))))
            in if path_exists w real_dst then Inl ShutilError else os_rename w src real_dst)
      else os_rename w src dst)"

definition KEY_DOWN :: int where "KEY_DOWN = 258"
definition KEY_UP :: int where "KEY_UP = 259"
definition KEY_BACKSPACE :: int where "KEY_BACKSPACE = 263"
definition KEY_ENTER :: int where "KEY_ENTER = 343"

text \<open>\<open>str.isprintable\<close> on the character of a key code between 0 and 255.\<close>

definition is_printable :: "int \<Rightarrow> bool" where
  "is_printable ch = (\<not> (ch \<le> 31 \<or> (127 \<le> ch \<and> ch \<le> 160) \<or> ch = 173))"

text \<open>
  \<open>prompt\<close>: the line editor.  Enter returns the stripped buffer, Esc returns \<open>None\<close>.  The
  result is \<open>None\<close> at the outer level while the editor still waits for a key.
\<close>

fun prompt_loop :: "int list \<Rightarrow> string \<Rightarrow> (string option \<times> int list) option" where
  "prompt_loop [] buf = None"
| "prompt_loop (ch # rest) buf =
     (if ch = 10 \<or> ch = 13 then Some (Some (strip buf), rest)
      else if ch = 27 then Some (None, rest)
      else if ch = KEY_BACKSPACE \<or> ch = 127 \<or> ch = 8 then prompt_loop rest (butlast buf)
      else if 0 \<le> ch \<and> ch \<le> 255 \<and> is_printable ch
           then prompt_loop rest (buf @ [char_of (nat ch)])
           else prompt_loop rest buf)"

definition prompt :: "world \<Rightarrow> string \<Rightarrow> string \<Rightarrow> (string option \<times> world) option" where
  "prompt w label dflt =
     (if term_h w < 6 \<or> term_w w < 10 then Some (None, w)
      else case prompt_loop (keys w) dflt of
             None \<Rightarrow> None
           | Some (answer, rest) \<Rightarrow> Some (answer, w\<lparr>keys := rest\<rparr>))"

text \<open>\<open>prompt_list\<close>: the list picker.\<close>

fun prompt_list_loop ::
  "int list \<Rightarrow> string list \<Rightarrow> nat \<Rightarrow> (string option \<times> int list) option" where
  "prompt_list_loop [] options idx = None"
| "prompt_list_loop (ch # rest) options idx =
     (if ch = 27 then Some (None, rest)
      else if ch = 10 \<or> ch = 13 \<or> ch = KEY_ENTER then Some (Some (options ! idx), rest)
      else if ch = KEY_UP then prompt_list_loop rest options (idx - 1)
      else if ch = KEY_DOWN then prompt_list_loop rest options (min (length options - 1) (idx + 1))
      else prompt_list_loop rest options idx)"

definition prompt_list ::
  "world \<Rightarrow> string \<Rightarrow> string list \<Rightarrow> (string option \<times> world) option" where
  "prompt_list w title_arg options =
     (if options = [] then Some (None, w)
      else case prompt_list_loop (keys w) options 0 of
             None \<Rightarrow> None
           | Some (answer, rest) \<Rightarrow> Some (answer, w\<lparr>keys := rest\<rparr>))"

definition folders_of :: "app \<Rightarrow> string \<Rightarrow> string list" where
  "folders_of st bucket = (case folders (favs st) bucket of None \<Rightarrow> [] | Some arr \<Rightarrow> arr)"

definition pick_folder_fav_if_requested ::
  "app \<Rightarrow> world \<Rightarrow> string \<Rightarrow> (string option \<times> world) option" where
  "pick_folder_fav_if_requested st w bucket =
     (let opts = folders_of st bucket in
      if opts = [] then Some (None, w)
      else prompt_list w (bucket @ '' favorites'') (filter (\<lambda>x. strip x \<noteq> []) opts))"

definition add_folder_fav :: "app \<Rightarrow> string \<Rightarrow> string \<Rightarrow> app" where
  "add_folder_fav st bucket_arg folder_name =
     (let bucket = (if valid_bucket bucket_arg then bucket_arg else ''Other'');
          nm = sanitize_folder folder_name;
          arr = folders_of st bucket;
          lowered = set (map (\<lambda>x. lower (strip x)) arr)
      in if lower (strip nm) \<notin> lowered
         then st\<lparr>favs := (favs st)\<lparr>folders := (folders (favs st))(bucket \<mapsto> take 30 (nm # arr))\<rparr>\<rparr>
         else st)"

section \<open>Numbers read and written by the import\<close>

text \<open>The format \<open>{n:02d}\<close>.\<close>

definition fmt02 :: "int \<Rightarrow> string" where
  "fmt02 i = (if 0 \<le> i \<and> i < 10 then CHR ''0'' # str_int i else str_int i)"

text \<open>
  \<open>int(text)\<close>: surrounding whitespace, a sign, then decimal digits, where single
  underscores may stand between digits.  \<open>None\<close> is the \<open>ValueError\<close>.
\<close>

fun digits_ok :: "string \<Rightarrow> bool" where
  "digits_ok [] = False"
| "digits_ok [c] = is_digit c"
| "digits_ok (c # d # cs) =
     (is_digit c \<and> (if d = CHR ''_'' then digits_ok cs else digits_ok (d # cs)))"

definition py_int :: "string \<Rightarrow> int option" where
  "py_int s =
     (let t = strip s;
          neg = (t \<noteq> [] \<and> hd t = CHR ''-'');
          body = (if t \<noteq> [] \<and> (hd t = CHR ''-'' \<or> hd t = CHR ''+'') then tl t else t)
      in if digits_ok body
         then Some ((if neg then - 1 else 1) * int_of_digits (filter (\<lambda>c. c \<noteq> CHR ''_'') body))
         else None)"

section \<open>Import\<close>

definition detect_episode :: "string \<Rightarrow> string \<Rightarrow> (int \<times> int) option" where
  "detect_episode filename item_title =
     (case detect_sxxeyy filename of Some e \<Rightarrow> Some e | None \<Rightarrow> detect_sxxeyy item_title)"

text \<open>
  What the folder dialogue of a bucket ends in: the file stays in staging (a prompt was left
  with Esc), \<open>os.makedirs\<close> raises, or the directory it has made and the destination path.
\<close>

datatype dest = LeftInStaging | MakedirsRaised py_exc | Final string string

text \<open>
  The folder name of a bucket: the answer to the prompt, or, when the answer is \<open>*\<close>, the
  pick from the favorite folders (the default when nothing is picked), through
  \<open>sanitize_folder\<close>; it is then added to the favorite folders.  \<open>None\<close> inside is Esc.
\<close>

definition ask_folder ::
  "app \<Rightarrow> world \<Rightarrow> string \<Rightarrow> string \<Rightarrow> string \<Rightarrow> ((string option \<times> app \<times> world)) option" where
  "ask_folder st w bucket label dflt =
     (case prompt w label dflt of
        None \<Rightarrow> None
      | Some (None, w1) \<Rightarrow> Some (None, st, w1)
      | Some (Some answer, w1) \<Rightarrow>
          (case (if strip answer = ''*''
                 then (case pick_folder_fav_if_requested st w1 bucket of
                         None \<Rightarrow> None
                       | Some (pick, w2) \<Rightarrow>
                           Some ((case pick of None \<Rightarrow> dflt
                                  | Some p \<Rightarrow> if p \<noteq> [] then p else dflt), w2))
                 else Some (answer, w1)) of
             None \<Rightarrow> None
           | Some (chosen, w2) \<Rightarrow>
               (let folder = sanitize_folder chosen
                in Some (Some folder, add_folder_fav st bucket folder, w2))))"

definition tv_dest ::
  "app \<Rightarrow> world \<Rightarrow> string \<Rightarrow> string \<Rightarrow> (dest \<times> app \<times> world) option" where
  "tv_dest st w filename item_title =
     (let ep = detect_episode filename item_title;
          show_default = sanitize_folder item_title
      in case ask_folder st w ''TV''
                (''Show name (Enter default, or type '' @ [CHR 0x22] @ ''*'' @ [CHR 0x22] @ '' for favorites): '') show_default of
           None \<Rightarrow> None
         | Some (None, st1, w1) \<Rightarrow> Some (LeftInStaging, st1, w1)
         | Some (Some show, st1, w1) \<Rightarrow>
             (case (case ep of
                      Some (season, episode) \<Rightarrow> Some (Some (season, None), w1)
                    | None \<Rightarrow>
                        (case prompt w1 ''Season number (01..): '' ''01'' of
                           None \<Rightarrow> None
                         | Some (None, w2) \<Rightarrow> Some (None, w2)
                         | Some (Some s, w2) \<Rightarrow>
                             (let season = (case py_int s of None \<Rightarrow> 1 | Some n \<Rightarrow> n)
                              in case prompt w2 ''Episode number (01.., blank = keep name): '' [] of
                                   None \<Rightarrow> None
                                 | Some (None, w3) \<Rightarrow> Some (None, w3)
                                 | Some (Some e, w3) \<Rightarrow>
                                     Some (Some (season,
                                             if strip e \<noteq> [] then py_int e else None), w3)))) of
                None \<Rightarrow> None
              | Some (None, w4) \<Rightarrow> Some (LeftInStaging, st1, w4)
              | Some (Some (season, episode_override), w4) \<Rightarrow>
                  (let season_dir = os_path_join (os_path_join BUCKET_TV show)
                                      (''Season '' @ fmt02 season);
                       new_name =
                         (if ep \<noteq> None \<or> episode_override \<noteq> None
                          then (let ext = str_or (snd (splitext filename)) ''.mp4'';
                                    ep_num = (case ep of Some (s, e) \<Rightarrow> e
                                              | None \<Rightarrow> (case episode_override of
                                                            Some e \<Rightarrow> e | None \<Rightarrow> 1))
                                in show @ '' - S'' @ fmt02 season @ ''E'' @ fmt02 ep_num @ ext)
                          else filename)
                   in case makedirs w4 season_dir of
                        Inl e \<Rightarrow> Some (MakedirsRaised e, st1, w4)
                      | Inr w5 \<Rightarrow>
                          Some (Final season_dir (os_path_join season_dir new_name), st1, w5))))"

definition movies_dest ::
  "app \<Rightarrow> world \<Rightarrow> string \<Rightarrow> string \<Rightarrow> (dest \<times> app \<times> world) option" where
  "movies_dest st w filename item_title =
     (let title_default = auto_clean_movie_folder_name item_title filename
      in case ask_folder st w ''Movies''
                (''Movie folder (Enter default, or type '' @ [CHR 0x22] @ ''*'' @ [CHR 0x22] @ '' for favorites): '') title_default of
           None \<Rightarrow> None
         | Some (None, st1, w1) \<Rightarrow> Some (LeftInStaging, st1, w1)
         | Some (Some movie, st1, w1) \<Rightarrow>
             (let movie_dir = os_path_join BUCKET_MOVIES movie
              in case makedirs w1 movie_dir of
                   Inl e \<Rightarrow> Some (MakedirsRaised e, st1, w1)
                 | Inr w2 \<Rightarrow> Some (Final movie_dir (os_path_join movie_dir filename), st1, w2)))"

definition other_dest ::
  "app \<Rightarrow> world \<Rightarrow> string \<Rightarrow> (dest \<times> app \<times> world) option" where
  "other_dest st w filename =
     (case ask_folder st w ''Other''
             (''Other subfolder (Enter '' @ [CHR 0x22] @ ''Misc'' @ [CHR 0x22] @ '', or type '' @ [CHR 0x22] @ ''*'' @ [CHR 0x22] @ '' for favorites): '') ''Misc'' of
        None \<Rightarrow> None
      | Some (None, st1, w1) \<Rightarrow> Some (LeftInStaging, st1, w1)
      | Some (Some sub, st1, w1) \<Rightarrow>
          (let other_dir = os_path_join BUCKET_OTHER sub
           in case makedirs w1 other_dir of
                Inl e \<Rightarrow> Some (MakedirsRaised e, st1, w1)
              | Inr w2 \<Rightarrow> Some (Final other_dir (os_path_join other_dir filename), st1, w2)))"

text \<open>
  The end of the import: a destination that exists gets the time stamp before its
  extension, then \<open>shutil.move\<close> moves the staged file there.  The function returns a
  message, or an exception leaves it.
\<close>

definition stamped_path :: "world \<Rightarrow> string \<Rightarrow> string" where
  "stamped_path w final_path =
     (if path_exists w final_path
      then (let (base, ext) = splitext final_path in base @ ''_'' @ stamp w @ ext)
      else final_path)"

datatype import_outcome = Returned string | Raised py_exc

definition choose_bucket_and_path ::
  "app \<Rightarrow> world \<Rightarrow> string \<Rightarrow> string \<Rightarrow> string
     \<Rightarrow> (import_outcome \<times> app \<times> world) option" where
  "choose_bucket_and_path st w ident filename item_title =
     (let staging_path = staging_file_path ident filename in
      if fs w staging_path = None
      then Some (Returned (''Downloaded, but staging file not found: '' @ staging_path), st, w)
      else
        let bucket = decide_bucket st filename item_title in
        case (if bucket = ''TV'' then tv_dest st w filename item_title
              else if bucket = ''Movies'' then movies_dest st w filename item_title
              else other_dest st w filename) of
          None \<Rightarrow> None
        | Some (LeftInStaging, st1, w1) \<Rightarrow>
            Some (Returned (''Left in staging: '' @ staging_path), st1, w1)
        | Some (MakedirsRaised e, st1, w1) \<Rightarrow> Some (Raised e, st1, w1)
        | Some (Final made_dir final_path0, st1, w1) \<Rightarrow>
            (let final_path = stamped_path w1 final_path0
             in case shutil_move w1 staging_path final_path of
                  Inl e \<Rightarrow> Some (Raised e, st1, w1)
                | Inr w2 \<Rightarrow> Some (Returned (''Saved: '' @ final_path), st1, w2)))"

section \<open>Properties of folder names and destination directories\<close>

text \<open>
  Collapsed whitespace: the only whitespace characters are single spaces between other
  characters.
\<close>

fun no_space_pair :: "string \<Rightarrow> bool" where
  "no_space_pair (a # b # cs) = (\<not> (is_space a \<and> is_space b) \<and> no_space_pair (b # cs))"
| "no_space_pair cs = True"

definition collapsed_ws :: "string \<Rightarrow> bool" where
  "collapsed_ws s =
     ((\<forall>c\<in>set s. is_space c \<longrightarrow> c = CHR '' '') \<and> no_space_pair s
      \<and> (s \<noteq> [] \<longrightarrow> \<not> is_space (hd s) \<and> \<not> is_space (last s)))"

text \<open>
  A path is a direct child of a root directory when it is the root, a separator and one
  component that names an entry of the root: not empty, without separator, and neither
  \<open>.\<close> (the root itself) nor \<open>..\<close> (the parent of the root).
\<close>

definition direct_child_of :: "string \<Rightarrow> string \<Rightarrow> bool" where
  "direct_child_of root p =
     (startswith p (root @ ''/'')
      \<and> (let nm = drop (length root + 1) p
         in nm \<noteq> [] \<and> CHR ''/'' \<notin> set nm \<and> nm \<noteq> ''.'' \<and> nm \<noteq> ''..''))"

section \<open>Letter case and the tag pattern\<close>

text \<open>A position of the matcher and a match, with every text in lower case.\<close>

definition lower_pos :: "rx_pos \<Rightarrow> rx_pos" where
  "lower_pos pos = (case pos of (left, right, caps) \<Rightarrow>
     (lower left, lower right, map (\<lambda>(n, g). (n, lower g)) caps))"

definition lower_found :: "rx_found \<Rightarrow> rx_found" where
  "lower_found m =
     \<lparr>m_start = m_start m, m_text = lower (m_text m), m_rest = lower (m_rest m),
      m_groups = map (\<lambda>(n, g). (n, lower g)) (m_groups m)\<rparr>"

text \<open>The words that the pattern of scene-release tags stands for, in lower case.\<close>

definition scene_tags :: "string list" where
  "scene_tags =
     [''2160p'', ''1080p'', ''720p'', ''480p'',
      ''bluray'', ''brrip'', ''bdrip'', ''webrip'', ''web-dl'', ''hdrip'', ''dvdrip'',
      ''x264'', ''x265'', ''h264'', ''h265'', ''hevc'', ''av1'',
      ''aac2.0'', ''aac.0'', ''aac'', ''dts'', ''dtshd'', ''dts-hd'',
      ''dd.1'', ''ddp.1'', ''dd5.1'', ''ddp5.1'', ''ac3'',
      ''proper'', ''repack'', ''extended'', ''remastered'', ''unrated'',
      ''yify'', ''yts'', ''rarbg'']"

section \<open>License gate: properties\<close>

lemma find_deny_Some:
  assumes "d \<in> set deny_markers" and "contains joined d"
  shows "\<exists>d'. find (\<lambda>d. contains joined d) deny_markers = Some d'
              \<and> d' \<in> set deny_markers \<and> contains joined d'"
proof (cases "find (\<lambda>d. contains joined d) deny_markers")
  case None
  with assms show ?thesis by (auto simp: find_None_iff)
next
  case (Some d')
  then show ?thesis by (auto simp: find_Some_iff)
qed

text \<open>
  C4: whenever the combined licenseurl/rights text contains an allow marker and a deny
  marker, the classification is not-allowed and the reason names a deny marker that occurs
  in the text, namely the first one of the deny list that does: the deny markers are looked
  at before the allow markers.
\<close>

theorem deny_precedence:
  assumes "a \<in> set allow_markers" and "contains (joined_rights meta) a"
    and "d \<in> set deny_markers" and "contains (joined_rights meta) d"
  shows "\<exists>d'. find (\<lambda>x. contains (joined_rights meta) x) deny_markers = Some d'
              \<and> d' \<in> set deny_markers \<and> contains (joined_rights meta) d'
              \<and> is_openly_licensed meta = (False, ''Blocked by rights metadata: '' @ d')"
proof -
  from find_deny_Some [OF assms(3) assms(4)]
  obtain d' where d': "find (\<lambda>x. contains (joined_rights meta) x) deny_markers = Some d'"
    "d' \<in> set deny_markers" "contains (joined_rights meta) d'"
    by blast
  then have "is_openly_licensed meta = (False, ''Blocked by rights metadata: '' @ d')"
    by (simp add: is_openly_licensed_def)
  with d' show ?thesis by blast
qed

theorem deny_precedence_witness:
  "\<exists>d'. d' \<in> set deny_markers
     \<and> is_openly_licensed
         [''metadata'' \<mapsto> [''licenseurl'' \<mapsto> ''https://creativecommons.org/licenses/by/4.0/'',
                               ''rights'' \<mapsto> ''All Rights Reserved'']]
       = (False, ''Blocked by rights metadata: '' @ d')"
proof -
  let ?m = "[''metadata'' \<mapsto> [''licenseurl'' \<mapsto> ''https://creativecommons.org/licenses/by/4.0/'',
                               ''rights'' \<mapsto> ''All Rights Reserved'']]"
  have h1: "''creativecommons.org'' \<in> set allow_markers"
    by (simp add: allow_markers_def)
  have h2: "contains (joined_rights ?m) ''creativecommons.org''"
    by code_simp
  have h3: "''all rights reserved'' \<in> set deny_markers"
    by (simp add: deny_markers_def)
  have h4: "contains (joined_rights ?m) ''all rights reserved''"
    by code_simp
  from deny_precedence [OF h1 h2 h3 h4] show ?thesis by blast
qed

text \<open>
  C3: metadata whose combined licenseurl/rights text is exactly the allow marker
  \<open>no known copyright\<close>.  The text contains the deny marker \<open>copyright\<close>, which is looked
  at first, so the classification is not-allowed.
\<close>

theorem no_known_copyright_blocked:
  "joined_rights [''metadata'' \<mapsto> [''rights'' \<mapsto> ''No known copyright'']] = ''no known copyright''
   \<and> ''no known copyright'' \<in> set allow_markers
   \<and> is_openly_licensed [''metadata'' \<mapsto> [''rights'' \<mapsto> ''No known copyright'']]
       = (False, ''Blocked by rights metadata: copyright'')"
  by code_simp

section \<open>Download orchestrator: properties\<close>

text \<open>
  The loops return at the first round that sees the child exited.  The result is canceled if
  the cancel key was read in that round or an earlier one (or the flag was already set),
  otherwise it follows the exit code.
\<close>

lemma download_one_loop_exit:
  assumes "\<forall>q\<in>set pre. rc q = None" and "rc p = Some r"
  shows "outcome (download_one_loop st (pre @ p # post) o_text e_text actual filename expected)
         = Some (if dl_cancel_requested st \<or> (\<exists>q\<in>set (pre @ [p]). cancel_key (key q))
                 then Inl Canceled
                 else if r \<noteq> 0 then Inl (exit_failure r o_text e_text)
                 else verify_expected_size actual filename expected)"
  using assms
proof (induction pre arbitrary: st)
  case Nil
  then show ?case by (simp add: Let_def poll_update_def outcome_def)
next
  case (Cons q pre)
  define st2 where "st2 = poll_update st q"
  have q: "rc q = None" using Cons.prems by simp
  have rest: "\<forall>q\<in>set pre. rc q = None" using Cons.prems by simp
  have flag: "dl_cancel_requested st2 = (dl_cancel_requested st \<or> cancel_key (key q))"
    by (simp add: st2_def poll_update_def Let_def)
  have step: "download_one_loop st ((q # pre) @ p # post) o_text e_text actual filename expected = download_one_loop st2 (pre @ p # post) o_text e_text actual filename expected"
    using q by (simp add: st2_def poll_update_def Let_def)
  show ?case
    unfolding step using Cons.IH [OF rest Cons.prems(2), of st2] flag
    by auto
qed

lemma download_glob_loop_exit:
  assumes "\<forall>q\<in>set pre. rc q = None" and "rc p = Some r"
  shows "outcome (download_glob_loop st (pre @ p # post) o_text e_text)
         = Some (if dl_cancel_requested st \<or> (\<exists>q\<in>set (pre @ [p]). cancel_key (key q))
                 then Inl Canceled
                 else if r \<noteq> 0 then Inl (exit_failure r o_text e_text)
                 else Inr ())"
  using assms
proof (induction pre arbitrary: st)
  case Nil
  then show ?case by (simp add: Let_def poll_update_def outcome_def)
next
  case (Cons q pre)
  define st2 where "st2 = poll_update st q"
  have q: "rc q = None" using Cons.prems by simp
  have rest: "\<forall>q\<in>set pre. rc q = None" using Cons.prems by simp
  have flag: "dl_cancel_requested st2 = (dl_cancel_requested st \<or> cancel_key (key q))"
    by (simp add: st2_def poll_update_def Let_def)
  have step: "download_glob_loop st ((q # pre) @ p # post) o_text e_text = download_glob_loop st2 (pre @ p # post) o_text e_text"
    using q by (simp add: st2_def poll_update_def Let_def)
  show ?case
    unfolding step using Cons.IH [OF rest Cons.prems(2), of st2] flag
    by auto
qed

text \<open>
  The size check by the sign of the expected size: a positive size that differs from the
  staged size makes the transfer fail (canceled when the cancel key had been read); a size
  of zero or below skips the check.
\<close>

lemma size_check_by_sign:
  assumes "\<forall>q\<in>set pre. rc q = None" and "rc p = Some 0"
  shows "(0 < expected \<and> actual \<noteq> expected \<longrightarrow>
            outcome (download_one_with_progress st
               (Spawned \<lparr>polls = pre @ p # post, out = o_text, err = e_text\<rparr>)
               actual filename expected)
            = Some (Inl (if \<exists>q\<in>set (pre @ [p]). cancel_key (key q) then Canceled
                         else SizeMismatch filename actual expected)))
       \<and> (\<not> (\<exists>q\<in>set (pre @ [p]). cancel_key (key q)) \<longrightarrow>
            outcome (download_one_with_progress st
               (Spawned \<lparr>polls = pre @ p # post, out = o_text, err = e_text\<rparr>)
               actual filename expected)
            = Some (if expected \<le> 0 \<or> actual = expected then Inr ()
                    else Inl (SizeMismatch filename actual expected)))"
proof -
  let ?st = "st\<lparr>dl_cancel_requested := False, dl_current_name := filename,
                dl_current_total := expected, dl_current_written := 0\<rparr>"
  have run: "download_one_with_progress st
               (Spawned \<lparr>polls = pre @ p # post, out = o_text, err = e_text\<rparr>)
               actual filename expected
             = download_one_loop ?st (pre @ p # post) o_text e_text actual filename expected"
    by (simp add: download_one_with_progress_def)
  show ?thesis
    unfolding run download_one_loop_exit [OF assms]
    by (simp add: verify_expected_size_def)
qed

text \<open>
  C5: a single-file transfer whose expected size from metadata is a size in bytes (zero or
  more, zero standing for unknown) and whose child exits with code 0.  If the expected size
  is not zero and the staged file has another size, the transfer is reported as a failure:
  the size mismatch, or canceled when the cancel key had been read; it is not a success.
  And a transfer that was not canceled succeeds with a staged size other than the expected
  one only when the expected size is zero: only then is the check skipped.
\<close>

theorem size_mismatch_is_failure:
  assumes "\<forall>q\<in>set pre. rc q = None" and "rc p = Some 0" and "0 \<le> expected"
  shows "(expected \<noteq> 0 \<and> actual \<noteq> expected \<longrightarrow>
            outcome (download_one_with_progress st
               (Spawned \<lparr>polls = pre @ p # post, out = o_text, err = e_text\<rparr>)
               actual filename expected)
            = Some (Inl (if \<exists>q\<in>set (pre @ [p]). cancel_key (key q) then Canceled
                         else SizeMismatch filename actual expected)))
       \<and> (\<not> (\<exists>q\<in>set (pre @ [p]). cancel_key (key q)) \<and> actual \<noteq> expected \<longrightarrow>
            (outcome (download_one_with_progress st
               (Spawned \<lparr>polls = pre @ p # post, out = o_text, err = e_text\<rparr>)
               actual filename expected)
             = Some (Inr ())) = (expected = 0))"
  using size_check_by_sign [OF assms(1,2), of expected actual st post o_text e_text filename]
    assms(3)
  by auto

theorem size_mismatch_is_failure_witness:
  "outcome (download_one_with_progress
       \<lparr>dl_cancel_requested = False, dl_current_name = [], dl_current_total = 0,
        dl_current_written = 0\<rparr>
       (Spawned \<lparr>polls = [\<lparr>rc = None, written = 10, key = - 1\<rparr>,
                           \<lparr>rc = Some 0, written = 60, key = - 1\<rparr>],
                 out = [], err = []\<rparr>)
       60 ''a.mp4'' 100)
   = Some (Inl (SizeMismatch ''a.mp4'' 60 100))"
  using size_mismatch_is_failure
    [of "[\<lparr>rc = None, written = 10, key = - 1\<rparr>]" "\<lparr>rc = Some 0, written = 60, key = - 1\<rparr>"
        100 60 _ "[]" "[]" "[]" "''a.mp4''"]
  by (simp add: cancel_key_def)

text \<open>
  C6: when the cancel key is read in the round that sees the child exited or in an earlier
  round, the result is canceled, whatever the exit code and the staged size, for the
  single-file transfer and for the glob transfer.
\<close>

theorem cancel_overrides_exit:
  assumes "\<forall>q\<in>set pre. rc q = None" and "rc p = Some r"
    and "\<exists>q\<in>set (pre @ [p]). cancel_key (key q)"
  shows "outcome (download_one_with_progress st
            (Spawned \<lparr>polls = pre @ p # post, out = o_text, err = e_text\<rparr>)
            actual filename expected)
         = Some (Inl Canceled)
       \<and> outcome (download_glob_with_progress st
            (Spawned \<lparr>polls = pre @ p # post, out = o_text, err = e_text\<rparr>)
            glob_pat expected)
         = Some (Inl Canceled)"
proof -
  have one: "download_one_with_progress st
               (Spawned \<lparr>polls = pre @ p # post, out = o_text, err = e_text\<rparr>)
               actual filename expected
             = download_one_loop
                 (st\<lparr>dl_cancel_requested := False, dl_current_name := filename,
                     dl_current_total := expected, dl_current_written := 0\<rparr>)
                 (pre @ p # post) o_text e_text actual filename expected"
    by (simp add: download_one_with_progress_def)
  have glob: "download_glob_with_progress st
               (Spawned \<lparr>polls = pre @ p # post, out = o_text, err = e_text\<rparr>)
               glob_pat expected
             = download_glob_loop
                 (st\<lparr>dl_cancel_requested := False, dl_current_name := ''--glob '' @ glob_pat,
                     dl_current_total := expected, dl_current_written := 0\<rparr>)
                 (pre @ p # post) o_text e_text"
    by (simp add: download_glob_with_progress_def)
  show ?thesis
    unfolding one glob download_one_loop_exit [OF assms(1,2)]
      download_glob_loop_exit [OF assms(1,2)]
    using assms(3) by simp
qed

theorem cancel_overrides_exit_witness:
  "outcome (download_one_with_progress
       \<lparr>dl_cancel_requested = False, dl_current_name = [], dl_current_total = 0,
        dl_current_written = 0\<rparr>
       (Spawned \<lparr>polls = [\<lparr>rc = None, written = 10, key = 99\<rparr>,
                           \<lparr>rc = Some 0, written = 100, key = - 1\<rparr>],
                 out = [], err = []\<rparr>)
       100 ''a.mp4'' 100)
   = Some (Inl Canceled)
   \<and> outcome (download_glob_with_progress
       \<lparr>dl_cancel_requested = False, dl_current_name = [], dl_current_total = 0,
        dl_current_written = 0\<rparr>
       (Spawned \<lparr>polls = [\<lparr>rc = None, written = 10, key = 99\<rparr>,
                           \<lparr>rc = Some 0, written = 100, key = - 1\<rparr>],
                 out = [], err = []\<rparr>)
       ''a*'' 100)
   = Some (Inl Canceled)"
  using cancel_overrides_exit
    [of "[\<lparr>rc = None, written = 10, key = 99\<rparr>]" "\<lparr>rc = Some 0, written = 100, key = - 1\<rparr>"
        0 _ "[]" "[]" "[]" 100 "''a.mp4''" 100 "''a*''"]
  by (simp add: cancel_key_def)

section \<open>Favorites store: properties\<close>

lemma strip_chars_no_leading:
  "dropWhile p (strip_chars p s) = strip_chars p s"
proof -
  define u where "u = dropWhile p s"
  define t where "t = rev (dropWhile p (rev u))"
  have split: "u = t @ rev (takeWhile p (rev u))"
    unfolding t_def by (metis rev_append rev_rev_ident takeWhile_dropWhile_id)
  have "t = [] \<or> \<not> p (hd t)"
  proof (cases "t = []")
    case True
    then show ?thesis by simp
  next
    case False
    then have "hd u = hd t" using split by (metis hd_append2)
    moreover have "u \<noteq> []" using False split by auto
    then have "\<not> p (hd u)" unfolding u_def by (rule hd_dropWhile)
    ultimately show ?thesis by simp
  qed
  then have "dropWhile p t = t" by (simp add: dropWhile_eq_self_iff)
  then show ?thesis by (simp add: strip_chars_def t_def u_def)
qed

lemma strip_chars_idem: "strip_chars p (strip_chars p s) = strip_chars p s"
proof -
  have "rev (dropWhile p (rev (strip_chars p s))) = strip_chars p s"
    by (simp add: strip_chars_def)
  then show ?thesis
    using strip_chars_no_leading [of p s] by (simp add: strip_chars_def)
qed

lemma strip_idem: "strip (strip s) = strip s"
  by (simp add: strip_def strip_chars_idem)

lemma filter_none_matching:
  "\<not> list_ex P xs \<Longrightarrow> filter (\<lambda>x. \<not> P x) xs = xs"
  by (induction xs) auto

lemma toggle_fav_item_twice:
  assumes "\<not> is_fav_item st (identifier r)"
  shows "favs (toggle_fav_item (toggle_fav_item st r) r) = favs st"
proof (cases "strip (identifier r) = []")
  case True
  then show ?thesis by (simp add: toggle_fav_item_def)
next
  case False
  let ?ident = "strip (identifier r)"
  let ?e = "\<lparr>identifier = identifier r, title = title r, year = year r, creator = creator r\<rparr>"
  let ?st1 = "st\<lparr>favs := (favs st)\<lparr>items := ?e # items (favs st)\<rparr>,
                 status := ''Added favorite item.''\<rparr>"
  have absent: "\<not> list_ex (\<lambda>it. strip (identifier it) = ?ident) (items (favs st))"
    using assms by (simp add: is_fav_item_def strip_idem)
  have not_fav: "\<not> is_fav_item st ?ident"
    using absent by (simp add: is_fav_item_def strip_idem)
  have first: "toggle_fav_item st r = ?st1"
    using False not_fav by (simp add: toggle_fav_item_def Let_def)
  have now_fav: "is_fav_item ?st1 ?ident"
    by (simp add: is_fav_item_def strip_idem)
  have second: "favs (toggle_fav_item ?st1 r)
      = (favs ?st1)\<lparr>items := filter (\<lambda>it. strip (identifier it) \<noteq> ?ident) (items (favs ?st1))\<rparr>"
    using False now_fav by (simp add: toggle_fav_item_def Let_def)
  have "filter (\<lambda>it. strip (identifier it) \<noteq> ?ident) (items (favs ?st1)) = items (favs st)"
    using filter_none_matching [OF absent] by simp
  then show ?thesis unfolding first second by simp
qed

lemma toggle_fav_file_twice:
  assumes "\<not> is_fav_file st (identifier item) (name f)"
  shows "favs (toggle_fav_file (toggle_fav_file st item f) item f) = favs st"
proof (cases "strip (identifier item) = [] \<or> strip (name f) = []")
  case True
  then show ?thesis by (auto simp: toggle_fav_file_def)
next
  case False
  let ?ident = "strip (identifier item)"
  let ?fname = "strip (name f)"
  let ?k = "file_fav_key (identifier item) (name f)"
  let ?e = "\<lparr>ff_identifier = identifier item, ff_item_title = title item,
             ff_year = year item, ff_creator = creator item, ff_filename = name f,
             ff_size = size_bytes f, ff_fmt = fmt f\<rparr>"
  let ?st1 = "st\<lparr>favs := (favs st)\<lparr>files_fav := ?e # files_fav (favs st)\<rparr>,
                 status := ''Added favorite file.''\<rparr>"
  have key: "file_fav_key ?ident ?fname = ?k"
    by (simp add: file_fav_key_def strip_idem)
  have absent: "\<not> list_ex (\<lambda>it. file_fav_key (ff_identifier it) (ff_filename it) = ?k)
                   (files_fav (favs st))"
    using assms by (simp add: is_fav_file_def)
  have not_fav: "\<not> is_fav_file st ?ident ?fname"
    using absent by (simp add: is_fav_file_def key)
  have first: "toggle_fav_file st item f = ?st1"
    using False not_fav by (simp add: toggle_fav_file_def Let_def)
  have now_fav: "is_fav_file ?st1 ?ident ?fname"
    by (simp add: is_fav_file_def key)
  have second: "favs (toggle_fav_file ?st1 item f)
      = (favs ?st1)\<lparr>files_fav :=
           filter (\<lambda>it. file_fav_key (ff_identifier it) (ff_filename it) \<noteq> ?k)
             (files_fav (favs ?st1))\<rparr>"
    using False now_fav by (simp add: toggle_fav_file_def Let_def key)
  have "filter (\<lambda>it. file_fav_key (ff_identifier it) (ff_filename it) \<noteq> ?k)
          (files_fav (favs ?st1)) = files_fav (favs st)"
    using filter_none_matching [OF absent] by simp
  then show ?thesis unfolding first second by simp
qed

lemma toggle_fav_item_adds:
  assumes "\<not> is_fav_item st (identifier r)" and "strip (identifier r) \<noteq> []"
  shows "is_fav_item (toggle_fav_item st r) (identifier r)"
proof -
  have "\<not> is_fav_item st (strip (identifier r))"
    using assms(1) by (simp add: is_fav_item_def strip_idem)
  then show ?thesis
    using assms(2) by (simp add: toggle_fav_item_def is_fav_item_def Let_def)
qed

lemma toggle_fav_file_adds:
  assumes "\<not> is_fav_file st (identifier item) (name f)"
    and "strip (identifier item) \<noteq> []" and "strip (name f) \<noteq> []"
  shows "is_fav_file (toggle_fav_file st item f) (identifier item) (name f)"
proof -
  have key: "file_fav_key (strip (identifier item)) (strip (name f))
             = file_fav_key (identifier item) (name f)"
    by (simp add: file_fav_key_def strip_idem)
  have "\<not> is_fav_file st (strip (identifier item)) (strip (name f))"
    using assms(1) by (simp add: is_fav_file_def key)
  then show ?thesis
    using assms(2,3) by (simp add: toggle_fav_file_def is_fav_file_def Let_def)
qed

text \<open>
  C8: favoriting then unfavoriting.  From a store in which the item (the file) is not a
  favorite, the first toggle makes it one (unless the identifier or the file name is blank,
  when the toggle does nothing), and the second toggle brings the store back to its prior
  contents.
\<close>

theorem favorite_toggle_twice:
  "(\<not> is_fav_item st (identifier r) \<longrightarrow>
      (strip (identifier r) \<noteq> [] \<longrightarrow> is_fav_item (toggle_fav_item st r) (identifier r))
      \<and> favs (toggle_fav_item (toggle_fav_item st r) r) = favs st)
   \<and> (\<not> is_fav_file st (identifier item) (name f) \<longrightarrow>
      (strip (identifier item) \<noteq> [] \<and> strip (name f) \<noteq> [] \<longrightarrow>
         is_fav_file (toggle_fav_file st item f) (identifier item) (name f))
      \<and> favs (toggle_fav_file (toggle_fav_file st item f) item f) = favs st)"
  using toggle_fav_item_twice toggle_fav_item_adds toggle_fav_file_twice toggle_fav_file_adds
  by blast

theorem favorite_toggle_twice_witness:
  "is_fav_item
     (toggle_fav_item
        \<lparr>status = ''Ready'', mode = ''RESULTS'', query_text = [], query_built = [],
         media_filter = ''movies'', title_only = False, page = 1, results = [], sel_r = 0,
         files = [], last_bucket = ''TV'', focus = ''MENU'', menu_idx = 0,
         favs = \<lparr>items = [\<lparr>identifier = ''night_of_the_dead'', title = ''Night'',
                              year = ''1968'', creator = ''R''\<rparr>],
                  files_fav = [], folders = Map.empty\<rparr>\<rparr>
        \<lparr>identifier = '' nosferatu '', title = ''Nosferatu'', year = ''1922'', creator = ''M''\<rparr>)
     '' nosferatu ''
   \<and> favs (toggle_fav_item (toggle_fav_item
        \<lparr>status = ''Ready'', mode = ''RESULTS'', query_text = [], query_built = [],
         media_filter = ''movies'', title_only = False, page = 1, results = [], sel_r = 0,
         files = [], last_bucket = ''TV'', focus = ''MENU'', menu_idx = 0,
         favs = \<lparr>items = [\<lparr>identifier = ''night_of_the_dead'', title = ''Night'',
                              year = ''1968'', creator = ''R''\<rparr>],
                  files_fav = [], folders = Map.empty\<rparr>\<rparr>
        \<lparr>identifier = '' nosferatu '', title = ''Nosferatu'', year = ''1922'', creator = ''M''\<rparr>)
        \<lparr>identifier = '' nosferatu '', title = ''Nosferatu'', year = ''1922'', creator = ''M''\<rparr>)
     = \<lparr>items = [\<lparr>identifier = ''night_of_the_dead'', title = ''Night'',
                    year = ''1968'', creator = ''R''\<rparr>],
        files_fav = [], folders = Map.empty\<rparr>
   \<and> favs (toggle_fav_file (toggle_fav_file
        \<lparr>status = ''Ready'', mode = ''RESULTS'', query_text = [], query_built = [],
         media_filter = ''movies'', title_only = False, page = 1, results = [], sel_r = 0,
         files = [], last_bucket = ''TV'', focus = ''MENU'', menu_idx = 0,
         favs = \<lparr>items = [\<lparr>identifier = ''night_of_the_dead'', title = ''Night'',
                              year = ''1968'', creator = ''R''\<rparr>],
                  files_fav = [], folders = Map.empty\<rparr>\<rparr>
        \<lparr>identifier = '' nosferatu '', title = ''Nosferatu'', year = ''1922'', creator = ''M''\<rparr>
        \<lparr>name = ''nosferatu.mp4'', size_bytes = 100, fmt = ''MPEG4''\<rparr>)
        \<lparr>identifier = '' nosferatu '', title = ''Nosferatu'', year = ''1922'', creator = ''M''\<rparr>
        \<lparr>name = ''nosferatu.mp4'', size_bytes = 100, fmt = ''MPEG4''\<rparr>)
     = \<lparr>items = [\<lparr>identifier = ''night_of_the_dead'', title = ''Night'',
                    year = ''1968'', creator = ''R''\<rparr>],
        files_fav = [], folders = Map.empty\<rparr>"
proof -
  let ?st = "\<lparr>status = ''Ready'', mode = ''RESULTS'', query_text = [], query_built = [],
         media_filter = ''movies'', title_only = False, page = 1, results = [], sel_r = 0,
         files = [], last_bucket = ''TV'', focus = ''MENU'', menu_idx = 0,
         favs = \<lparr>items = [\<lparr>identifier = ''night_of_the_dead'', title = ''Night'',
                              year = ''1968'', creator = ''R''\<rparr>],
                  files_fav = [], folders = Map.empty\<rparr>\<rparr>"
  let ?r = "\<lparr>identifier = '' nosferatu '', title = ''Nosferatu'', year = ''1922'',
             creator = ''M''\<rparr>"
  let ?f = "\<lparr>name = ''nosferatu.mp4'', size_bytes = 100, fmt = ''MPEG4''\<rparr>"
  have h1: "\<not> is_fav_item ?st (identifier ?r)" by code_simp
  have h2: "strip (identifier ?r) \<noteq> []" by code_simp
  have h3: "\<not> is_fav_file ?st (identifier ?r) (name ?f)" by code_simp
  have id: "identifier ?r = '' nosferatu ''" by simp
  have st: "favs ?st = \<lparr>items = [\<lparr>identifier = ''night_of_the_dead'', title = ''Night'',
                    year = ''1968'', creator = ''R''\<rparr>],
        files_fav = [], folders = Map.empty\<rparr>" by simp
  from favorite_toggle_twice [of ?st ?r ?r ?f] h1 h2 h3
  show ?thesis unfolding id st by blast
qed

text \<open>
  From a store in which the item already is a favorite, the two toggles are an unfavoriting
  followed by a favoriting: the entry comes back at the front of the list.
\<close>

lemma toggle_twice_from_favorite_moves_to_front:
  "items (favs (toggle_fav_item (toggle_fav_item
        \<lparr>status = ''Ready'', mode = ''RESULTS'', query_text = [], query_built = [],
         media_filter = ''movies'', title_only = False, page = 1, results = [], sel_r = 0,
         files = [], last_bucket = ''TV'', focus = ''MENU'', menu_idx = 0,
         favs = \<lparr>items = [\<lparr>identifier = ''a'', title = ''A'', year = [], creator = []\<rparr>,
                             \<lparr>identifier = ''b'', title = ''B'', year = [], creator = []\<rparr>],
                  files_fav = [], folders = Map.empty\<rparr>\<rparr>
        \<lparr>identifier = ''b'', title = ''B'', year = [], creator = []\<rparr>)
        \<lparr>identifier = ''b'', title = ''B'', year = [], creator = []\<rparr>))
   = [\<lparr>identifier = ''b'', title = ''B'', year = [], creator = []\<rparr>,
      \<lparr>identifier = ''a'', title = ''A'', year = [], creator = []\<rparr>]"
  by code_simp

section \<open>Search and pagination: properties\<close>

text \<open>
  A paging attempt whose search runs and brings back no result (an empty page, or an error)
  restores the page counter, and leaves the result list empty: \<open>do_search\<close> has already
  stored the new, empty list, and only the page, the focus and the menu index are saved and
  put back.
\<close>

lemma do_search_stores_results:
  assumes "build_query (query_text st) (media_filter st) (title_only st) \<noteq> []"
  shows "results (do_search curl too_small st False)
         = fst (ia_search_via_curl curl
                  (build_query (query_text st) (media_filter st) (title_only st))
                  ROWS_PER_PAGE (page st))"
    and "page (do_search curl too_small st False) = page st"
  using assms
  by (simp_all add: do_search_def render_def Let_def split: prod.splits)

lemma next_page_empty:
  assumes "query_text st \<noteq> []"
    and "build_query (query_text st) (media_filter st) (title_only st) \<noteq> []"
    and "fst (ia_search_via_curl curl
                (build_query (query_text st) (media_filter st) (title_only st))
                ROWS_PER_PAGE (page st + 1)) = []"
  shows "page (next_page curl too_small st) = page st
         \<and> results (next_page curl too_small st) = []"
proof -
  let ?st1 = "do_search curl too_small (st\<lparr>page := page st + 1\<rparr>) False"
  have "results ?st1 = []"
    using do_search_stores_results(1) [of "st\<lparr>page := page st + 1\<rparr>" curl too_small] assms(2,3)
    by simp
  then show ?thesis
    using assms(1) by (simp add: next_page_def Let_def)
qed

lemma prev_page_empty:
  assumes "query_text st \<noteq> []" and "1 < page st"
    and "build_query (query_text st) (media_filter st) (title_only st) \<noteq> []"
    and "fst (ia_search_via_curl curl
                (build_query (query_text st) (media_filter st) (title_only st))
                ROWS_PER_PAGE (page st - 1)) = []"
  shows "page (prev_page curl too_small st) = page st
         \<and> results (prev_page curl too_small st) = []"
proof -
  let ?st1 = "do_search curl too_small (st\<lparr>page := page st - 1\<rparr>) False"
  have "results ?st1 = []"
    using do_search_stores_results(1) [of "st\<lparr>page := page st - 1\<rparr>" curl too_small] assms(3,4)
    by simp
  then show ?thesis
    using assms(1,2) by (simp add: prev_page_def Let_def)
qed

text \<open>
  C1 at a concrete run.  The search collaborator has one document at offset 0 and none
  beyond.  After the search for \<open>cats\<close> the state shows page 1 with one result; paging
  forward finds page 2 empty, the page counter is back at 1, and the result list is empty
  instead of the one result shown before the attempt.
\<close>

theorem next_page_empty_clears_results:
  "results (do_search
       (\<lambda>q rows start. CurlReply 0 [] []
           (Some (if start = 0 then [[''identifier'' \<mapsto> ''cats_1950'', ''title'' \<mapsto> ''Cats'']] else [])))
       False
       \<lparr>status = ''Ready'', mode = ''RESULTS'', query_text = ''cats'', query_built = [],
        media_filter = ''movies'', title_only = False, page = 1, results = [], sel_r = 0,
        files = [], last_bucket = ''TV'', focus = ''MENU'', menu_idx = 5,
        favs = \<lparr>items = [], files_fav = [], folders = Map.empty\<rparr>\<rparr>
       True)
     = [\<lparr>identifier = ''cats_1950'', title = ''Cats'', year = [], creator = []\<rparr>]
   \<and> page (do_search
       (\<lambda>q rows start. CurlReply 0 [] []
           (Some (if start = 0 then [[''identifier'' \<mapsto> ''cats_1950'', ''title'' \<mapsto> ''Cats'']] else [])))
       False
       \<lparr>status = ''Ready'', mode = ''RESULTS'', query_text = ''cats'', query_built = [],
        media_filter = ''movies'', title_only = False, page = 1, results = [], sel_r = 0,
        files = [], last_bucket = ''TV'', focus = ''MENU'', menu_idx = 5,
        favs = \<lparr>items = [], files_fav = [], folders = Map.empty\<rparr>\<rparr>
       True) = 1
   \<and> page (next_page
       (\<lambda>q rows start. CurlReply 0 [] []
           (Some (if start = 0 then [[''identifier'' \<mapsto> ''cats_1950'', ''title'' \<mapsto> ''Cats'']] else [])))
       False
       (do_search
         (\<lambda>q rows start. CurlReply 0 [] []
             (Some (if start = 0 then [[''identifier'' \<mapsto> ''cats_1950'', ''title'' \<mapsto> ''Cats'']] else [])))
         False
         \<lparr>status = ''Ready'', mode = ''RESULTS'', query_text = ''cats'', query_built = [],
          media_filter = ''movies'', title_only = False, page = 1, results = [], sel_r = 0,
          files = [], last_bucket = ''TV'', focus = ''MENU'', menu_idx = 5,
          favs = \<lparr>items = [], files_fav = [], folders = Map.empty\<rparr>\<rparr>
         True)) = 1
   \<and> results (next_page
       (\<lambda>q rows start. CurlReply 0 [] []
           (Some (if start = 0 then [[''identifier'' \<mapsto> ''cats_1950'', ''title'' \<mapsto> ''Cats'']] else [])))
       False
       (do_search
         (\<lambda>q rows start. CurlReply 0 [] []
             (Some (if start = 0 then [[''identifier'' \<mapsto> ''cats_1950'', ''title'' \<mapsto> ''Cats'']] else [])))
         False
         \<lparr>status = ''Ready'', mode = ''RESULTS'', query_text = ''cats'', query_built = [],
          media_filter = ''movies'', title_only = False, page = 1, results = [], sel_r = 0,
          files = [], last_bucket = ''TV'', focus = ''MENU'', menu_idx = 5,
          favs = \<lparr>items = [], files_fav = [], folders = Map.empty\<rparr>\<rparr>
         True)) = []"
  by code_simp

section \<open>Naming and bucket classifier: properties\<close>

text \<open>
  C2, as the code has it: for a file with no season/episode pattern and no year hint in
  file name and item title, and which is not the single large video of the item, the bucket
  is the last bucket when that is TV, Movies or Other, and Other otherwise.
\<close>

theorem bucket_falls_back_to_last:
  assumes "detect_sxxeyy filename = None" and "detect_sxxeyy item_title = None"
    and "\<not> has_year_hint filename" and "\<not> has_year_hint item_title"
    and "\<not> is_single_large_video st filename"
  shows "decide_bucket st filename item_title
         = (if last_bucket st = ''TV'' \<or> last_bucket st = ''Movies'' \<or> last_bucket st = ''Other''
            then last_bucket st else ''Other'')"
  using assms by (simp add: decide_bucket_def valid_bucket_def Let_def)

theorem bucket_falls_back_to_last_witness:
  "decide_bucket
     \<lparr>status = [], mode = ''DOWNLOADING'', query_text = [], query_built = [],
      media_filter = ''movies'', title_only = False, page = 1, results = [], sel_r = 0,
      files = [\<lparr>name = ''notes.txt'', size_bytes = 4096, fmt = ''Text''\<rparr>],
      last_bucket = ''Movies'', focus = ''MENU'', menu_idx = 0,
      favs = \<lparr>items = [], files_fav = [], folders = Map.empty\<rparr>\<rparr>
     ''notes.txt'' ''Field notes'' = ''Movies''"
proof -
  let ?st = "\<lparr>status = [], mode = ''DOWNLOADING'', query_text = [], query_built = [],
      media_filter = ''movies'', title_only = False, page = 1, results = [], sel_r = 0,
      files = [\<lparr>name = ''notes.txt'', size_bytes = 4096, fmt = ''Text''\<rparr>],
      last_bucket = ''Movies'', focus = ''MENU'', menu_idx = 0,
      favs = \<lparr>items = [], files_fav = [], folders = Map.empty\<rparr>\<rparr>"
  have h1: "detect_sxxeyy ''notes.txt'' = None" by code_simp
  have h2: "detect_sxxeyy ''Field notes'' = None" by code_simp
  have h3: "\<not> has_year_hint ''notes.txt''" by code_simp
  have h4: "\<not> has_year_hint ''Field notes''" by code_simp
  have h5: "\<not> is_single_large_video ?st ''notes.txt''" by code_simp
  from bucket_falls_back_to_last [OF h1 h2 h3 h4 h5] show ?thesis by simp
qed

text \<open>
  The claim as stated fails in the initial state of the program, where the last bucket is TV:
  the same file goes to the TV bucket, and with Enter at the three prompts it is saved under
  the TV root.
\<close>

theorem plain_file_goes_to_last_bucket_tv:
  "detect_sxxeyy ''notes.txt'' = None \<and> detect_sxxeyy ''Field notes'' = None
   \<and> \<not> has_year_hint ''notes.txt'' \<and> \<not> has_year_hint ''Field notes''
   \<and> \<not> is_single_large_video
        \<lparr>status = [], mode = ''DOWNLOADING'', query_text = [], query_built = [],
         media_filter = ''movies'', title_only = False, page = 1, results = [], sel_r = 0,
         files = [\<lparr>name = ''notes.txt'', size_bytes = 4096, fmt = ''Text''\<rparr>],
         last_bucket = ''TV'', focus = ''MENU'', menu_idx = 0,
         favs = \<lparr>items = [], files_fav = [], folders = Map.empty\<rparr>\<rparr> ''notes.txt''
   \<and> decide_bucket
        \<lparr>status = [], mode = ''DOWNLOADING'', query_text = [], query_built = [],
         media_filter = ''movies'', title_only = False, page = 1, results = [], sel_r = 0,
         files = [\<lparr>name = ''notes.txt'', size_bytes = 4096, fmt = ''Text''\<rparr>],
         last_bucket = ''TV'', focus = ''MENU'', menu_idx = 0,
         favs = \<lparr>items = [], files_fav = [], folders = Map.empty\<rparr>\<rparr>
        ''notes.txt'' ''Field notes'' = ''TV''
   \<and> map_option fst (choose_bucket_and_path
        \<lparr>status = [], mode = ''DOWNLOADING'', query_text = [], query_built = [],
         media_filter = ''movies'', title_only = False, page = 1, results = [], sel_r = 0,
         files = [\<lparr>name = ''notes.txt'', size_bytes = 4096, fmt = ''Text''\<rparr>],
         last_bucket = ''TV'', focus = ''MENU'', menu_idx = 0,
         favs = \<lparr>items = [], files_fav = [], folders = Map.empty\<rparr>\<rparr>
        \<lparr>term_h = 24, term_w = 80, keys = [10, 10, 10], stamp = ''20240101_120000'',
         fs = [''/mnt/ssd/media/.ia_staging/item1/notes.txt'' \<mapsto> ''data''], dirs = []\<rparr>
        ''item1'' ''notes.txt'' ''Field notes'')
      = Some (Returned ''Saved: /mnt/ssd/media/TV/Field notes/Season 01/notes.txt'')"
  by code_simp

section \<open>Folder names: properties\<close>

lemma strip_chars_infix:
  "\<exists>front rear. s = front @ strip_chars p s @ rear"
proof -
  define u where "u = dropWhile p s"
  have "u = strip_chars p s @ rev (takeWhile p (rev u))"
    unfolding strip_chars_def u_def
    by (metis rev_append rev_rev_ident takeWhile_dropWhile_id)
  moreover have "s = takeWhile p s @ u" by (simp add: u_def)
  ultimately show ?thesis by metis
qed

lemma set_strip_chars: "set (strip_chars p s) \<subseteq> set s"
proof -
  obtain front rear where "s = front @ strip_chars p s @ rear"
    using strip_chars_infix by blast
  then have "set s = set front \<union> set (strip_chars p s) \<union> set rear"
    by (metis set_append sup_assoc)
  then show ?thesis by blast
qed

lemma strip_chars_ends:
  assumes "strip_chars p s \<noteq> []"
  shows "\<not> p (hd (strip_chars p s))" and "\<not> p (last (strip_chars p s))"
proof -
  let ?t = "strip_chars p s"
  have "dropWhile p ?t = ?t" by (rule strip_chars_no_leading)
  then show "\<not> p (hd ?t)" using assms by (simp add: dropWhile_eq_self_iff)
  have rt: "rev ?t = dropWhile p (rev (dropWhile p s))" by (simp add: strip_chars_def)
  have "rev ?t \<noteq> []" using assms by simp
  then have "\<not> p (hd (rev ?t))" unfolding rt by (rule hd_dropWhile)
  then show "\<not> p (last ?t)" using assms by (simp add: hd_rev)
qed

lemma set_sub_class_plus_empty:
  "set (sub_class_plus p [] s) \<subseteq> {c \<in> set s. \<not> p c}"
proof (induction p "[] :: string" s rule: sub_class_plus.induct)
  case (1 p)
  then show ?case by simp
next
  case (2 p c cs)
  show ?case
  proof (cases "p c")
    case True
    then have "set (sub_class_plus p [] (c # cs)) = set (sub_class_plus p [] (dropWhile p cs))"
      by simp
    also have "\<dots> \<subseteq> {x \<in> set (dropWhile p cs). \<not> p x}" using 2(1) [OF True] .
    also have "\<dots> \<subseteq> {x \<in> set (c # cs). \<not> p x}" by (auto dest: set_dropWhileD)
    finally show ?thesis .
  next
    case False
    then show ?thesis using 2(2) by auto
  qed
qed

lemma set_sub_class_plus:
  "set (sub_class_plus p repl s) \<subseteq> {c \<in> set s. \<not> p c} \<union> set repl"
proof (induction p repl s rule: sub_class_plus.induct)
  case (1 p repl)
  then show ?case by simp
next
  case (2 p repl c cs)
  show ?case
  proof (cases "p c")
    case True
    have "set (sub_class_plus p repl (dropWhile p cs))
          \<subseteq> {x \<in> set (dropWhile p cs). \<not> p x} \<union> set repl"
      using 2(1) [OF True] .
    also have "\<dots> \<subseteq> {x \<in> set (c # cs). \<not> p x} \<union> set repl"
      by (auto dest: set_dropWhileD)
    finally show ?thesis using True by auto
  next
    case False
    then show ?thesis using 2(2) by auto
  qed
qed

lemma no_space_pair_Cons:
  "no_space_pair (a # xs)
   = (xs = [] \<or> (\<not> (is_space a \<and> is_space (hd xs)) \<and> no_space_pair xs))"
  by (cases xs) auto

lemma no_space_pair_sub_spaces:
  "no_space_pair (sub_class_plus is_space '' '' s)"
proof (induction "is_space" "'' ''" s rule: sub_class_plus.induct)
  case 1
  then show ?case by simp
next
  case (2 c cs)
  show ?case
  proof (cases "is_space c")
    case True
    let ?d = "dropWhile is_space cs"
    let ?rest = "sub_class_plus is_space '' '' ?d"
    have ih: "no_space_pair ?rest" using 2(1) [OF True] .
    have "?rest = [] \<or> \<not> is_space (hd ?rest)"
    proof (cases "?d")
      case Nil
      show ?thesis unfolding Nil by simp
    next
      case (Cons d ds)
      then have "\<not> is_space d" using hd_dropWhile [of is_space cs] by auto
      then show ?thesis unfolding Cons by simp
    qed
    then have "no_space_pair (CHR '' '' # ?rest)"
      using ih by (auto simp: no_space_pair_Cons)
    then show ?thesis using True by simp
  next
    case False
    then show ?thesis using 2(2) by (simp add: no_space_pair_Cons)
  qed
qed

lemma no_space_pair_append:
  "no_space_pair (xs @ ys) \<Longrightarrow> no_space_pair xs \<and> no_space_pair ys"
proof (induction xs)
  case Nil
  then show ?case by simp
next
  case (Cons a xs)
  show ?case
  proof (cases xs)
    case Nil
    with Cons.prems show ?thesis by (cases ys) auto
  next
    case (Cons b bs)
    with Cons.prems Cons.IH show ?thesis by auto
  qed
qed

lemma no_space_pair_strip:
  assumes "no_space_pair s"
  shows "no_space_pair (strip_chars p s)"
proof -
  obtain front rear where "s = front @ strip_chars p s @ rear"
    using strip_chars_infix by blast
  then have "no_space_pair (front @ strip_chars p s @ rear)" using assms by simp
  then have "no_space_pair (strip_chars p s @ rear)" using no_space_pair_append by blast
  then show ?thesis using no_space_pair_append by blast
qed

lemma spaces_only_sub_spaces:
  "c \<in> set (sub_class_plus is_space '' '' s) \<Longrightarrow> is_space c \<Longrightarrow> c = CHR '' ''"
  using set_sub_class_plus [of is_space "'' ''" s] by auto

lemma collapsed_strip_sub_spaces:
  "collapsed_ws (strip (sub_class_plus is_space '' '' s))"
proof -
  let ?u = "sub_class_plus is_space '' '' s"
  have a: "\<forall>c\<in>set (strip ?u). is_space c \<longrightarrow> c = CHR '' ''"
    using set_strip_chars [of is_space ?u] spaces_only_sub_spaces [of _ s]
    by (auto simp: strip_def)
  have b: "no_space_pair (strip ?u)"
    unfolding strip_def by (rule no_space_pair_strip [OF no_space_pair_sub_spaces])
  have c: "strip ?u \<noteq> [] \<longrightarrow> \<not> is_space (hd (strip ?u)) \<and> \<not> is_space (last (strip ?u))"
    unfolding strip_def using strip_chars_ends [of is_space ?u] by blast
  from a b c show ?thesis by (simp add: collapsed_ws_def)
qed

lemma sanitize_folder_nonempty: "sanitize_folder s \<noteq> []"
  by (simp add: sanitize_folder_def str_or_def Let_def)

lemma not_forbidden_space: "\<not> forbidden_char CHR '' ''"
  by (simp add: forbidden_char_def)

lemma sanitize_folder_no_forbidden:
  assumes "c \<in> set (sanitize_folder s)"
  shows "\<not> forbidden_char c"
proof -
  let ?n2 = "sub_class_plus forbidden_char [] (strip s)"
  let ?n3 = "strip (sub_class_plus is_space '' '' ?n2)"
  have n2: "\<forall>x\<in>set ?n2. \<not> forbidden_char x"
    using set_sub_class_plus_empty [of forbidden_char "strip s"] by auto
  have "set ?n3 \<subseteq> set (sub_class_plus is_space '' '' ?n2)"
    unfolding strip_def by (rule set_strip_chars)
  also have "\<dots> \<subseteq> set ?n2 \<union> {CHR '' ''}"
    using set_sub_class_plus [of is_space "'' ''" ?n2] by auto
  finally have n3: "\<forall>x\<in>set ?n3. \<not> forbidden_char x"
    using n2 not_forbidden_space by auto
  have unknown: "\<forall>x\<in>set ''Unknown''. \<not> forbidden_char x"
    by (simp add: forbidden_char_def)
  have "sanitize_folder s = ?n3 \<or> sanitize_folder s = ''Unknown''"
    by (simp add: sanitize_folder_def str_or_def Let_def)
  then show ?thesis using assms n3 unknown by metis
qed

lemma sanitize_folder_collapsed: "collapsed_ws (sanitize_folder s)"
proof -
  let ?n2 = "sub_class_plus forbidden_char [] (strip s)"
  let ?n3 = "strip (sub_class_plus is_space '' '' ?n2)"
  have "collapsed_ws ?n3" by (rule collapsed_strip_sub_spaces)
  moreover have "collapsed_ws ''Unknown''" by code_simp
  moreover have "sanitize_folder s = ?n3 \<or> sanitize_folder s = ''Unknown''"
    by (simp add: sanitize_folder_def str_or_def Let_def)
  ultimately show ?thesis by metis
qed

section \<open>Destination directories: properties\<close>

lemma startswith_append: "startswith (xs @ ys) xs"
  by (induction xs) auto

lemma startswith_slash: "startswith b ''/'' = (b \<noteq> [] \<and> hd b = CHR ''/'')"
  by (cases b) auto

lemma os_path_join_plain:
  assumes "a \<noteq> []" and "last a \<noteq> CHR ''/''" and "CHR ''/'' \<notin> set b"
  shows "os_path_join a b = a @ ''/'' @ b"
proof -
  have "\<not> startswith b ''/''"
    using assms(3) by (cases b) (auto simp: startswith_slash)
  then show ?thesis using assms(1,2) by (simp add: os_path_join_def)
qed

lemma bucket_roots:
  "BUCKET_TV = ''/mnt/ssd/media/TV''"
  "BUCKET_MOVIES = ''/mnt/ssd/media/Movies''"
  "BUCKET_OTHER = ''/mnt/ssd/media/Other''"
  by (simp_all add: BUCKET_TV_def BUCKET_MOVIES_def BUCKET_OTHER_def MEDIA_ROOT_def
      os_path_join_def)

lemma sanitize_folder_no_slash: "CHR ''/'' \<notin> set (sanitize_folder s)"
  using sanitize_folder_no_forbidden [of "CHR ''/''" s]
  by (auto simp: forbidden_char_def)

lemma direct_child_of_plain:
  "direct_child_of root (root @ ''/'' @ nm)
   = (nm \<noteq> [] \<and> CHR ''/'' \<notin> set nm \<and> nm \<noteq> ''.'' \<and> nm \<noteq> ''..'')"
proof -
  have "startswith (root @ ''/'' @ nm) (root @ ''/'')"
    using startswith_append [of "root @ ''/''" nm] by simp
  then show ?thesis by (simp add: direct_child_of_def)
qed

lemma bucket_folder_dir:
  assumes "root = BUCKET_TV \<or> root = BUCKET_MOVIES \<or> root = BUCKET_OTHER"
  shows "os_path_join root (sanitize_folder s) = root @ ''/'' @ sanitize_folder s"
    and "direct_child_of root (os_path_join root (sanitize_folder s))
         = (sanitize_folder s \<noteq> ''.'' \<and> sanitize_folder s \<noteq> ''..'')"
proof -
  have root: "root \<noteq> []" "last root \<noteq> CHR ''/''"
    using assms by (auto simp: bucket_roots)
  show j: "os_path_join root (sanitize_folder s) = root @ ''/'' @ sanitize_folder s"
    by (rule os_path_join_plain [OF root sanitize_folder_no_slash])
  show "direct_child_of root (os_path_join root (sanitize_folder s))
         = (sanitize_folder s \<noteq> ''.'' \<and> sanitize_folder s \<noteq> ''..'')"
    unfolding j direct_child_of_plain
    using sanitize_folder_nonempty [of s] sanitize_folder_no_slash [of s] by simp
qed

text \<open>Every folder name that the folder dialogue returns has gone through
  \<open>sanitize_folder\<close>.\<close>

lemma ask_folder_sanitized:
  assumes "ask_folder st w bucket label dflt = Some (Some folder, st', w')"
  shows "\<exists>x. folder = sanitize_folder x"
  using assms
  by (auto simp: ask_folder_def Let_def split: option.splits prod.splits if_splits)

section \<open>License gate: the marker that cannot allow\<close>

lemma startswith_iff: "startswith s p = (\<exists>rest. s = p @ rest)"
  by (induction s p rule: startswith.induct) auto

lemma contains_iff: "contains s needle = (\<exists>front rest. s = front @ needle @ rest)"
proof (induction s)
  case Nil
  then show ?case by auto
next
  case (Cons c cs)
  show ?case
  proof
    assume "contains (c # cs) needle"
    then consider "startswith (c # cs) needle" | "contains cs needle" by auto
    then show "\<exists>front rest. c # cs = front @ needle @ rest"
    proof cases
      case 1
      then obtain rest where "c # cs = needle @ rest" by (auto simp: startswith_iff)
      then have "c # cs = [] @ needle @ rest" by simp
      then show ?thesis by blast
    next
      case 2
      then obtain front rest where "cs = front @ needle @ rest" using Cons.IH by auto
      then have "c # cs = (c # front) @ needle @ rest" by simp
      then show ?thesis by blast
    qed
  next
    assume "\<exists>front rest. c # cs = front @ needle @ rest"
    then obtain front rest where eq: "c # cs = front @ needle @ rest" by blast
    show "contains (c # cs) needle"
    proof (cases front)
      case Nil
      then have "startswith (c # cs) needle" using eq by (auto simp: startswith_iff)
      then show ?thesis by simp
    next
      case (Cons f fs)
      then have "cs = fs @ needle @ rest" using eq by simp
      then have "contains cs needle" using Cons.IH by blast
      then show ?thesis by simp
    qed
  qed
qed

text \<open>
  Every text that contains the allow marker \<open>no known copyright\<close> contains the deny marker
  \<open>copyright\<close>, so the classification of such a text is never allowed.
\<close>

lemma no_known_copyright_never_allowed:
  assumes "contains (joined_rights meta) ''no known copyright''"
  shows "\<not> fst (is_openly_licensed meta)"
proof -
  obtain front rest where "joined_rights meta = front @ ''no known copyright'' @ rest"
    using assms by (auto simp: contains_iff)
  then have "joined_rights meta = (front @ ''no known '') @ ''copyright'' @ rest" by simp
  then have c: "contains (joined_rights meta) ''copyright''"
    unfolding contains_iff by blast
  have "''copyright'' \<in> set deny_markers" by (simp add: deny_markers_def)
  from find_deny_Some [OF this c]
  obtain d' where "find (\<lambda>d. contains (joined_rights meta) d) deny_markers = Some d'"
    by blast
  then show ?thesis by (simp add: is_openly_licensed_def)
qed

section \<open>Import: properties\<close>

lemma splitext_parts: "fst (splitext p) @ snd (splitext p) = p"
  by (simp add: splitext_def Let_def)

lemma stamped_path_distinct:
  assumes "path_exists w p"
  shows "stamped_path w p \<noteq> p"
    and "length p < length (stamped_path w p)"
proof -
  obtain base ext where be: "splitext p = (base, ext)" by (cases "splitext p")
  then have p: "p = base @ ext" using splitext_parts [of p] by simp
  have "stamped_path w p = base @ ''_'' @ stamp w @ ext"
    using assms be by (simp add: stamped_path_def)
  then have "length (stamped_path w p) = length p + 1 + length (stamp w)"
    using p by simp
  then show "length p < length (stamped_path w p)" by simp
  then show "stamped_path w p \<noteq> p" by auto
qed

lemma rfind_tail:
  "drop (nat (rfind c s + 1)) s = rev (takeWhile (\<lambda>x. x \<noteq> c) (rev s))"
proof (cases "c \<in> set s")
  case False
  then have tw: "takeWhile (\<lambda>x. x \<noteq> c) (rev s) = rev s"
    by (auto simp: takeWhile_eq_all_conv)
  show ?thesis unfolding tw using False by (simp add: rfind_def)
next
  case True
  let ?tw = "takeWhile (\<lambda>x. x \<noteq> c) (rev s)"
  let ?dw = "dropWhile (\<lambda>x. x \<noteq> c) (rev s)"
  have s: "s = rev ?dw @ rev ?tw"
    by (metis rev_append rev_rev_ident takeWhile_dropWhile_id)
  have "?dw \<noteq> []" using True by auto
  then have lt: "length ?tw < length s"
    by (metis length_rev length_append takeWhile_dropWhile_id length_greater_0_conv
        less_add_same_cancel1)
  have len: "length (rev ?dw) = length s - length ?tw"
    by (metis length_rev length_append takeWhile_dropWhile_id add_diff_cancel_left')
  have "nat (rfind c s + 1) = length s - length ?tw"
    using True lt by (simp add: rfind_def)
  then have "drop (nat (rfind c s + 1)) s = drop (length (rev ?dw)) (rev ?dw @ rev ?tw)"
    using len s by simp
  then show ?thesis by simp
qed

lemma basename_no_slash: "CHR ''/'' \<notin> set (basename p)"
proof -
  have "set (basename p) = set (takeWhile (\<lambda>x. x \<noteq> CHR ''/'') (rev p))"
    by (simp add: basename_def rfind_tail)
  then show ?thesis by (auto dest: set_takeWhileD)
qed

lemma os_path_join_longer:
  assumes "CHR ''/'' \<notin> set b"
  shows "length a \<le> length (os_path_join a b)"
proof -
  have "\<not> startswith b ''/''" using assms by (cases b) auto
  then show ?thesis by (simp add: os_path_join_def)
qed

lemma os_rename_keeps:
  assumes "os_rename w src dst = Inr w'" and "q \<noteq> src" and "q \<noteq> dst"
  shows "fs w' q = fs w q"
  using assms by (auto simp: os_rename_def Let_def split: if_splits)

text \<open>
  When the destination exists, the staged file goes to another path, the destination with
  the time stamp before its extension, and the file at the destination keeps its content.
\<close>

lemma import_keeps_destination:
  assumes "fs w p \<noteq> None" and "staging \<noteq> p"
    and "shutil_move w staging (stamped_path w p) = Inr w'"
  shows "stamped_path w p = fst (splitext p) @ ''_'' @ stamp w @ snd (splitext p)"
    and "fs w' p = fs w p"
proof -
  have ex: "path_exists w p" using assms(1) by (simp add: path_exists_def)
  show "stamped_path w p = fst (splitext p) @ ''_'' @ stamp w @ snd (splitext p)"
    using ex by (simp add: stamped_path_def split: prod.splits)
  let ?dst = "stamped_path w p"
  let ?real = "os_path_join ?dst (basename (rev (dropWhile (\<lambda>c. c = CHR ''/'') (rev staging))))"
  have longer: "length p < length ?dst" by (rule stamped_path_distinct(2) [OF ex])
  show "fs w' p = fs w p"
  proof (cases "isdir w ?dst")
    case True
    then have mv: "os_rename w staging ?real = Inr w'"
      using assms(3) by (simp add: shutil_move_def Let_def split: if_splits)
    have "length ?dst \<le> length ?real"
      by (rule os_path_join_longer [OF basename_no_slash])
    then have "p \<noteq> ?real" using longer by auto
    then show ?thesis using os_rename_keeps [OF mv] assms(2) by simp
  next
    case False
    then have mv: "os_rename w staging ?dst = Inr w'"
      using assms(3) by (simp add: shutil_move_def)
    have "p \<noteq> ?dst" using longer by auto
    then show ?thesis using os_rename_keeps [OF mv] assms(2) by simp
  qed
qed

text \<open>
  C7 at a concrete run.  The folder \<open>Other/Misc\<close> holds \<open>a.txt\<close> from a first import and
  \<open>a_20240101_120000.txt\<close> from a second one; a third \<open>a.txt\<close> is imported while the clock
  still shows the same second.  The destination exists, the stamped path is chosen, and the
  file of the second import at that path is replaced by the staged file.
\<close>

theorem stamped_path_collision_overwrites:
  "fs \<lparr>term_h = 24, term_w = 80, keys = [10], stamp = ''20240101_120000'',
       fs = [''/mnt/ssd/media/.ia_staging/item1/a.txt'' \<mapsto> ''third'',
             ''/mnt/ssd/media/Other/Misc/a.txt'' \<mapsto> ''first'',
             ''/mnt/ssd/media/Other/Misc/a_20240101_120000.txt'' \<mapsto> ''second''],
       dirs = [''/mnt'', ''/mnt/ssd'', ''/mnt/ssd/media'', ''/mnt/ssd/media/.ia_staging'',
               ''/mnt/ssd/media/.ia_staging/item1'', ''/mnt/ssd/media/TV'',
               ''/mnt/ssd/media/Movies'', ''/mnt/ssd/media/Other'',
               ''/mnt/ssd/media/Other/Misc'']\<rparr>
      ''/mnt/ssd/media/Other/Misc/a_20240101_120000.txt'' = Some ''second''
   \<and> map_option (\<lambda>(msg, st', w').
         (msg, fs w' ''/mnt/ssd/media/Other/Misc/a.txt'',
          fs w' ''/mnt/ssd/media/Other/Misc/a_20240101_120000.txt'',
          fs w' ''/mnt/ssd/media/.ia_staging/item1/a.txt''))
       (choose_bucket_and_path
         \<lparr>status = [], mode = ''DOWNLOADING'', query_text = [], query_built = [],
          media_filter = ''movies'', title_only = False, page = 1, results = [], sel_r = 0,
          files = [\<lparr>name = ''a.txt'', size_bytes = 5, fmt = ''Text''\<rparr>],
          last_bucket = ''Other'', focus = ''MENU'', menu_idx = 0,
          favs = \<lparr>items = [], files_fav = [], folders = Map.empty\<rparr>\<rparr>
         \<lparr>term_h = 24, term_w = 80, keys = [10], stamp = ''20240101_120000'',
          fs = [''/mnt/ssd/media/.ia_staging/item1/a.txt'' \<mapsto> ''third'',
                ''/mnt/ssd/media/Other/Misc/a.txt'' \<mapsto> ''first'',
                ''/mnt/ssd/media/Other/Misc/a_20240101_120000.txt'' \<mapsto> ''second''],
          dirs = [''/mnt'', ''/mnt/ssd'', ''/mnt/ssd/media'', ''/mnt/ssd/media/.ia_staging'',
                  ''/mnt/ssd/media/.ia_staging/item1'', ''/mnt/ssd/media/TV'',
                  ''/mnt/ssd/media/Movies'', ''/mnt/ssd/media/Other'',
                  ''/mnt/ssd/media/Other/Misc'']\<rparr>
         ''item1'' ''a.txt'' ''notes'')
     = Some (Returned ''Saved: /mnt/ssd/media/Other/Misc/a_20240101_120000.txt'',
             Some ''first'', Some ''third'', None)"
  by code_simp

text \<open>
  A file name with a directory part: only the bucket folder is made, so the move finds no
  directory for the destination, \<open>FileNotFoundError\<close> leaves the function and the file stays
  in staging.
\<close>

lemma nested_file_name_raises:
  "map_option (\<lambda>(msg, st', w'). (msg, fs w' ''/mnt/ssd/media/.ia_staging/item1/sub/a.txt''))
       (choose_bucket_and_path
         \<lparr>status = [], mode = ''DOWNLOADING'', query_text = [], query_built = [],
          media_filter = ''movies'', title_only = False, page = 1, results = [], sel_r = 0,
          files = [\<lparr>name = ''sub/a.txt'', size_bytes = 5, fmt = ''Text''\<rparr>],
          last_bucket = ''Other'', focus = ''MENU'', menu_idx = 0,
          favs = \<lparr>items = [], files_fav = [], folders = Map.empty\<rparr>\<rparr>
         \<lparr>term_h = 24, term_w = 80, keys = [10], stamp = ''20240101_120000'',
          fs = [''/mnt/ssd/media/.ia_staging/item1/sub/a.txt'' \<mapsto> ''data''],
          dirs = [''/mnt'', ''/mnt/ssd'', ''/mnt/ssd/media'', ''/mnt/ssd/media/.ia_staging'',
                  ''/mnt/ssd/media/.ia_staging/item1'', ''/mnt/ssd/media/.ia_staging/item1/sub'',
                  ''/mnt/ssd/media/TV'', ''/mnt/ssd/media/Movies'', ''/mnt/ssd/media/Other'']\<rparr>
         ''item1'' ''sub/a.txt'' ''notes'')
     = Some (Raised FileNotFoundError, Some ''data'')"
  by code_simp

section \<open>Destinations of the three buckets\<close>

lemma os_path_join_head:
  assumes "a \<noteq> []" and "last a \<noteq> CHR ''/''" and "b \<noteq> []" and "hd b \<noteq> CHR ''/''"
  shows "os_path_join a b = a @ ''/'' @ b"
  using assms by (simp add: os_path_join_def startswith_slash)

lemma makedirs_made:
  assumes "makedirs w d = Inr w'"
  shows "d \<in> set (dirs w')"
  using assms by (auto simp: makedirs_def split: if_splits)

lemma movies_dest_shape:
  assumes "movies_dest st w filename item_title = Some (Final d p, st', w')"
  shows "\<exists>x. d = BUCKET_MOVIES @ ''/'' @ sanitize_folder x
             \<and> d \<in> set (dirs w') \<and> p = os_path_join d filename"
proof -
  obtain folder where
    ask: "\<exists>st1 w1. ask_folder st w ''Movies''
        (''Movie folder (Enter default, or type '' @ [CHR 0x22] @ ''*'' @ [CHR 0x22]
          @ '' for favorites): '')
        (auto_clean_movie_folder_name item_title filename) = Some (Some folder, st1, w1)
        \<and> makedirs w1 (os_path_join BUCKET_MOVIES folder) = Inr w'"
    and d: "d = os_path_join BUCKET_MOVIES folder"
    and p: "p = os_path_join d filename"
    using assms
    by (auto simp: movies_dest_def Let_def split: option.splits prod.splits sum.splits)
  from ask obtain x where x: "folder = sanitize_folder x"
    using ask_folder_sanitized by blast
  have "d = BUCKET_MOVIES @ ''/'' @ sanitize_folder x"
    unfolding d x using bucket_folder_dir(1) [of BUCKET_MOVIES x] by simp
  moreover have "d \<in> set (dirs w')" using ask d makedirs_made by blast
  ultimately show ?thesis using p by blast
qed

lemma other_dest_shape:
  assumes "other_dest st w filename = Some (Final d p, st', w')"
  shows "\<exists>x. d = BUCKET_OTHER @ ''/'' @ sanitize_folder x
             \<and> d \<in> set (dirs w') \<and> p = os_path_join d filename"
proof -
  obtain folder where
    ask: "\<exists>st1 w1. ask_folder st w ''Other''
        (''Other subfolder (Enter '' @ [CHR 0x22] @ ''Misc'' @ [CHR 0x22] @ '', or type ''
          @ [CHR 0x22] @ ''*'' @ [CHR 0x22] @ '' for favorites): '')
        ''Misc'' = Some (Some folder, st1, w1)
        \<and> makedirs w1 (os_path_join BUCKET_OTHER folder) = Inr w'"
    and d: "d = os_path_join BUCKET_OTHER folder"
    and p: "p = os_path_join d filename"
    using assms
    by (auto simp: other_dest_def Let_def split: option.splits prod.splits sum.splits)
  from ask obtain x where x: "folder = sanitize_folder x"
    using ask_folder_sanitized by blast
  have "d = BUCKET_OTHER @ ''/'' @ sanitize_folder x"
    unfolding d x using bucket_folder_dir(1) [of BUCKET_OTHER x] by simp
  moreover have "d \<in> set (dirs w')" using ask d makedirs_made by blast
  ultimately show ?thesis using p by blast
qed

lemma tv_dest_shape:
  assumes "tv_dest st w filename item_title = Some (Final d p, st', w')"
  shows "\<exists>x season.
           d = BUCKET_TV @ ''/'' @ sanitize_folder x @ ''/Season '' @ fmt02 season
           \<and> d \<in> set (dirs w')
           \<and> (p = os_path_join d filename
               \<or> (\<exists>e. p = os_path_join d
                           (sanitize_folder x @ '' - S'' @ fmt02 season @ ''E'' @ fmt02 e
                            @ str_or (snd (splitext filename)) ''.mp4'')))"
proof -
  obtain folder season where
    ask: "\<exists>st1 w1. ask_folder st w ''TV''
        (''Show name (Enter default, or type '' @ [CHR 0x22] @ ''*'' @ [CHR 0x22]
          @ '' for favorites): '')
        (sanitize_folder item_title) = Some (Some folder, st1, w1)"
    and mk: "\<exists>w4. makedirs w4 d = Inr w'"
    and d: "d = os_path_join (os_path_join BUCKET_TV folder) (''Season '' @ fmt02 season)"
    and p: "p = os_path_join d filename
            \<or> (\<exists>e. p = os_path_join d
                        (folder @ '' - S'' @ fmt02 season @ ''E'' @ fmt02 e
                         @ str_or (snd (splitext filename)) ''.mp4''))"
    using assms
    by (auto simp: tv_dest_def Let_def split: option.splits prod.splits sum.splits if_splits)
  from ask obtain x where x: "folder = sanitize_folder x"
    using ask_folder_sanitized by blast
  have show_dir: "os_path_join BUCKET_TV folder = BUCKET_TV @ ''/'' @ sanitize_folder x"
    unfolding x using bucket_folder_dir(1) [of BUCKET_TV x] by simp
  have ne: "sanitize_folder x \<noteq> []" by (rule sanitize_folder_nonempty)
  have "last (sanitize_folder x) \<in> set (sanitize_folder x)" using ne by simp
  then have "last (sanitize_folder x) \<noteq> CHR ''/''"
    using sanitize_folder_no_slash [of x] by metis
  then have l: "last (BUCKET_TV @ ''/'' @ sanitize_folder x) \<noteq> CHR ''/''"
    using ne by simp
  have "d = (BUCKET_TV @ ''/'' @ sanitize_folder x) @ ''/'' @ (''Season '' @ fmt02 season)"
    unfolding d show_dir by (rule os_path_join_head) (use l in simp_all)
  then have "d = BUCKET_TV @ ''/'' @ sanitize_folder x @ ''/Season '' @ fmt02 season"
    by simp
  moreover have "d \<in> set (dirs w')" using mk makedirs_made by blast
  ultimately show ?thesis using p x by blast
qed

text \<open>
  C10, as the code has it.  \<open>sanitize_folder\<close> returns a name that is not empty, has none of
  the characters \<open>/ \ : * ? " < > |\<close> and has collapsed whitespace.  Joined to a bucket root
  such a name gives the root, a separator and the name, which is a direct child of the root
  except when the name is \<open>.\<close> or \<open>..\<close>, names that \<open>sanitize_folder\<close> lets through.  Every
  directory that the three buckets make for a destination is built from such a name: for
  Movies and Other it is the root joined with the name and the file keeps its name; for TV
  it is the folder \<open>Season NN\<close> below the root joined with the name, and the file keeps
  its name or is renamed from the show name, the season, the episode and the extension.
\<close>

theorem sanitize_folder_safe:
  "sanitize_folder s \<noteq> []
   \<and> (\<forall>c\<in>set (sanitize_folder s). \<not> forbidden_char c)
   \<and> collapsed_ws (sanitize_folder s)
   \<and> (root = BUCKET_TV \<or> root = BUCKET_MOVIES \<or> root = BUCKET_OTHER \<longrightarrow>
        os_path_join root (sanitize_folder s) = root @ ''/'' @ sanitize_folder s
        \<and> direct_child_of root (os_path_join root (sanitize_folder s))
          = (sanitize_folder s \<noteq> ''.'' \<and> sanitize_folder s \<noteq> ''..''))
   \<and> (movies_dest st w filename item_title = Some (Final d p, st', w') \<longrightarrow>
        (\<exists>x. d = BUCKET_MOVIES @ ''/'' @ sanitize_folder x
             \<and> d \<in> set (dirs w') \<and> p = os_path_join d filename))
   \<and> (other_dest st w filename = Some (Final d p, st', w') \<longrightarrow>
        (\<exists>x. d = BUCKET_OTHER @ ''/'' @ sanitize_folder x
             \<and> d \<in> set (dirs w') \<and> p = os_path_join d filename))
   \<and> (tv_dest st w filename item_title = Some (Final d p, st', w') \<longrightarrow>
        (\<exists>x season.
           d = BUCKET_TV @ ''/'' @ sanitize_folder x @ ''/Season '' @ fmt02 season
           \<and> d \<in> set (dirs w')
           \<and> (p = os_path_join d filename
               \<or> (\<exists>e. p = os_path_join d
                           (sanitize_folder x @ '' - S'' @ fmt02 season @ ''E'' @ fmt02 e
                            @ str_or (snd (splitext filename)) ''.mp4'')))))"
  using sanitize_folder_nonempty [of s] sanitize_folder_no_forbidden [of _ s]
    sanitize_folder_collapsed [of s] bucket_folder_dir [of root s]
    movies_dest_shape [of st w filename item_title d p st' w']
    other_dest_shape [of st w filename d p st' w']
    tv_dest_shape [of st w filename item_title d p st' w']
  by blast

theorem sanitize_folder_safe_witness:
  "sanitize_folder (''  My: Show /  2 '') = ''My Show 2''
   \<and> os_path_join BUCKET_MOVIES (sanitize_folder (''  My: Show /  2 ''))
       = ''/mnt/ssd/media/Movies/My Show 2''
   \<and> direct_child_of BUCKET_MOVIES (os_path_join BUCKET_MOVIES (sanitize_folder (''  My: Show /  2 '')))
   \<and> (\<exists>x. ''/mnt/ssd/media/Movies/film (1999)'' = BUCKET_MOVIES @ ''/'' @ sanitize_folder x
          \<and> ''/mnt/ssd/media/Movies/film (1999)/film.1999.mkv''
            = os_path_join ''/mnt/ssd/media/Movies/film (1999)'' ''film.1999.mkv'')
   \<and> (\<exists>x. ''/mnt/ssd/media/Other/Misc'' = BUCKET_OTHER @ ''/'' @ sanitize_folder x
          \<and> ''/mnt/ssd/media/Other/Misc/notes.txt''
            = os_path_join ''/mnt/ssd/media/Other/Misc'' ''notes.txt'')
   \<and> (\<exists>x season. ''/mnt/ssd/media/TV/My Show/Season 02''
          = BUCKET_TV @ ''/'' @ sanitize_folder x @ ''/Season '' @ fmt02 season)"
proof -
  let ?s = "''  My: Show /  2 ''"
  let ?st = "\<lparr>status = [], mode = ''DOWNLOADING'', query_text = [], query_built = [],
          media_filter = ''movies'', title_only = False, page = 1, results = [], sel_r = 0,
          files = [], last_bucket = ''Other'', focus = ''MENU'', menu_idx = 0,
          favs = \<lparr>items = [], files_fav = [], folders = Map.empty\<rparr>\<rparr>"
  let ?w = "\<lparr>term_h = 24, term_w = 80, keys = [10], stamp = ''20240101_120000'',
          fs = Map.empty, dirs = []\<rparr>"
  have v: "sanitize_folder ?s = ''My Show 2''" by code_simp
  have r: "BUCKET_MOVIES = ''/mnt/ssd/media/Movies''" by (rule bucket_roots)
  have "map_option fst (movies_dest ?st ?w ''film.1999.mkv'' [])
        = Some (Final ''/mnt/ssd/media/Movies/film (1999)''
                  ''/mnt/ssd/media/Movies/film (1999)/film.1999.mkv'')"
    by code_simp
  then obtain st1 w1 where
    m: "movies_dest ?st ?w ''film.1999.mkv'' []
        = Some (Final ''/mnt/ssd/media/Movies/film (1999)''
                  ''/mnt/ssd/media/Movies/film (1999)/film.1999.mkv'', st1, w1)"
    by (cases "movies_dest ?st ?w ''film.1999.mkv'' []") auto
  have "map_option fst (other_dest ?st ?w ''notes.txt'')
        = Some (Final ''/mnt/ssd/media/Other/Misc'' ''/mnt/ssd/media/Other/Misc/notes.txt'')"
    by code_simp
  then obtain st2 w2 where
    o: "other_dest ?st ?w ''notes.txt''
        = Some (Final ''/mnt/ssd/media/Other/Misc'' ''/mnt/ssd/media/Other/Misc/notes.txt'',
                st2, w2)"
    by (cases "other_dest ?st ?w ''notes.txt''") auto
  have "map_option fst (tv_dest ?st ?w ''Show.S02E05.mkv'' ''My Show'')
        = Some (Final ''/mnt/ssd/media/TV/My Show/Season 02''
                  ''/mnt/ssd/media/TV/My Show/Season 02/My Show - S02E05.mkv'')"
    by code_simp
  then obtain st3 w3 where
    t: "tv_dest ?st ?w ''Show.S02E05.mkv'' ''My Show''
        = Some (Final ''/mnt/ssd/media/TV/My Show/Season 02''
                  ''/mnt/ssd/media/TV/My Show/Season 02/My Show - S02E05.mkv'', st3, w3)"
    by (cases "tv_dest ?st ?w ''Show.S02E05.mkv'' ''My Show''") auto
  note M = sanitize_folder_safe [of ?s BUCKET_MOVIES ?st ?w "''film.1999.mkv''" "[]"
         "''/mnt/ssd/media/Movies/film (1999)''"
         "''/mnt/ssd/media/Movies/film (1999)/film.1999.mkv''" st1 w1]
  note O = sanitize_folder_safe [of ?s BUCKET_OTHER ?st ?w "''notes.txt''" "[]"
         "''/mnt/ssd/media/Other/Misc''" "''/mnt/ssd/media/Other/Misc/notes.txt''" st2 w2]
  note T = sanitize_folder_safe [of ?s BUCKET_TV ?st ?w "''Show.S02E05.mkv''" "''My Show''"
         "''/mnt/ssd/media/TV/My Show/Season 02''"
         "''/mnt/ssd/media/TV/My Show/Season 02/My Show - S02E05.mkv''" st3 w3]
  have j: "os_path_join BUCKET_MOVIES (sanitize_folder ?s)
           = BUCKET_MOVIES @ ''/'' @ sanitize_folder ?s"
    using M by blast
  have "direct_child_of BUCKET_MOVIES (os_path_join BUCKET_MOVIES (sanitize_folder ?s))
        = (sanitize_folder ?s \<noteq> ''.'' \<and> sanitize_folder ?s \<noteq> ''..'')"
    using M by blast
  then have dc: "direct_child_of BUCKET_MOVIES (os_path_join BUCKET_MOVIES (sanitize_folder ?s))"
    unfolding v by simp
  have j': "os_path_join BUCKET_MOVIES (sanitize_folder ?s) = ''/mnt/ssd/media/Movies/My Show 2''"
    using j unfolding v r by simp
  have em: "\<exists>x. ''/mnt/ssd/media/Movies/film (1999)'' = BUCKET_MOVIES @ ''/'' @ sanitize_folder x
          \<and> ''/mnt/ssd/media/Movies/film (1999)/film.1999.mkv''
            = os_path_join ''/mnt/ssd/media/Movies/film (1999)'' ''film.1999.mkv''"
    using M m by blast
  have eo: "\<exists>x. ''/mnt/ssd/media/Other/Misc'' = BUCKET_OTHER @ ''/'' @ sanitize_folder x
          \<and> ''/mnt/ssd/media/Other/Misc/notes.txt''
            = os_path_join ''/mnt/ssd/media/Other/Misc'' ''notes.txt''"
    using O o by blast
  have et: "\<exists>x season. ''/mnt/ssd/media/TV/My Show/Season 02''
          = BUCKET_TV @ ''/'' @ sanitize_folder x @ ''/Season '' @ fmt02 season"
    using T t by blast
  from v j' dc em eo et show ?thesis by blast
qed

text \<open>
  The claim as stated fails for the name \<open>..\<close>: typed at the folder prompt of the Movies
  bucket it passes \<open>sanitize_folder\<close> unchanged, the destination directory is the parent of
  the Movies root, and the staged file is saved there.
\<close>

theorem dotdot_folder_leaves_bucket:
  "sanitize_folder ''..'' = ''..''
   \<and> os_path_join BUCKET_MOVIES (sanitize_folder ''..'') = ''/mnt/ssd/media/Movies/..''
   \<and> \<not> direct_child_of BUCKET_MOVIES (os_path_join BUCKET_MOVIES (sanitize_folder ''..''))
   \<and> map_option fst (choose_bucket_and_path
         \<lparr>status = [], mode = ''DOWNLOADING'', query_text = [], query_built = [],
          media_filter = ''movies'', title_only = False, page = 1, results = [], sel_r = 0,
          files = [], last_bucket = ''Other'', focus = ''MENU'', menu_idx = 0,
          favs = \<lparr>items = [], files_fav = [], folders = Map.empty\<rparr>\<rparr>
         \<lparr>term_h = 24, term_w = 80,
          keys = [127, 127, 127, 127, 127, 127, 127, 127, 127, 127, 127, 46, 46, 10],
          stamp = ''20240101_120000'',
          fs = [''/mnt/ssd/media/.ia_staging/item1/film.1999.mkv'' \<mapsto> ''data''],
          dirs = [''/mnt'', ''/mnt/ssd'', ''/mnt/ssd/media'', ''/mnt/ssd/media/.ia_staging'',
                  ''/mnt/ssd/media/.ia_staging/item1'', ''/mnt/ssd/media/TV'',
                  ''/mnt/ssd/media/Movies'', ''/mnt/ssd/media/Other'']\<rparr>
         ''item1'' ''film.1999.mkv'' [])
       = Some (Returned ''Saved: /mnt/ssd/media/Movies/../film.1999.mkv'')"
  by code_simp

section \<open>Letter case and the tag pattern: properties\<close>

lemma code_char_of_small: "n < 256 \<Longrightarrow> code (char_of n) = n"
  by (simp add: code_def)

lemma code_less: "code c < 256"
  by (simp add: code_def)

lemma lower_char_code:
  "code (lower_char c)
   = (if (65 \<le> code c \<and> code c \<le> 90) \<or> (192 \<le> code c \<and> code c \<le> 222 \<and> code c \<noteq> 215)
      then code c + 32 else code c)"
  by (simp add: lower_char_def Let_def code_char_of_small)

lemma code_inject: "code a = code b \<Longrightarrow> a = b"
  by (simp add: code_def)

lemma lower_char_idem: "lower_char (lower_char c) = lower_char c"
  by (rule code_inject) (auto simp: lower_char_code)

lemma is_digit_lower_char: "is_digit (lower_char c) = is_digit c"
  by (auto simp: is_digit_def Let_def lower_char_code)

lemma is_word_lower_char: "is_word (lower_char c) = is_word c"
  using code_less [of c] by (auto simp: is_word_def Let_def lower_char_code)

lemma chr_eq_lower_char: "chr_eq True c (lower_char x) = chr_eq True c x"
  by (simp add: chr_eq_def lower_char_idem)

lemma at_word_boundary_lower:
  "at_word_boundary (lower left) (lower right) = at_word_boundary left right"
  by (cases left; cases right) (simp_all add: at_word_boundary_def lower_def is_word_lower_char)

text \<open>
  Matching with \<open>re.IGNORECASE\<close> does not look at the letter case of the text: the
  matcher takes the same steps on a text and on its lower-case form.
\<close>

lemma rx_match_lower:
  assumes "\<And>pos. rel_option Q (k pos) (k' (lower_pos pos))"
  shows "rel_option Q (rx_match True r pos k) (rx_match True r (lower_pos pos) k')"
  using assms
proof (induction r arbitrary: pos k k')
  case Eps
  then show ?case by simp
next
  case (Chr c)
  obtain left right caps where pos: "pos = (left, right, caps)" by (cases pos)
  show ?case
  proof (cases right)
    case Nil
    then show ?thesis by (simp add: pos lower_pos_def lower_def)
  next
    case (Cons x xs)
    have "lower_pos (x # left, xs, caps)
          = (lower_char x # lower left, lower xs, map (\<lambda>(n, g). (n, lower g)) caps)"
      by (simp add: lower_pos_def lower_def)
    then show ?thesis
      using Chr [of "(x # left, xs, caps)"]
      by (simp add: pos Cons lower_pos_def lower_def chr_eq_lower_char)
  qed
next
  case (Cls cs)
  obtain left right caps where pos: "pos = (left, right, caps)" by (cases pos)
  show ?case
  proof (cases right)
    case Nil
    then show ?thesis by (simp add: pos lower_pos_def lower_def)
  next
    case (Cons x xs)
    have "lower_pos (x # left, xs, caps)
          = (lower_char x # lower left, lower xs, map (\<lambda>(n, g). (n, lower g)) caps)"
      by (simp add: lower_pos_def lower_def)
    then show ?thesis
      using Cls [of "(x # left, xs, caps)"]
      by (simp add: pos Cons lower_pos_def lower_def chr_eq_lower_char)
  qed
next
  case Digit
  obtain left right caps where pos: "pos = (left, right, caps)" by (cases pos)
  show ?case
  proof (cases right)
    case Nil
    then show ?thesis by (simp add: pos lower_pos_def lower_def)
  next
    case (Cons x xs)
    have "lower_pos (x # left, xs, caps)
          = (lower_char x # lower left, lower xs, map (\<lambda>(n, g). (n, lower g)) caps)"
      by (simp add: lower_pos_def lower_def)
    then show ?thesis
      using Digit [of "(x # left, xs, caps)"]
      by (simp add: pos Cons lower_pos_def lower_def is_digit_lower_char)
  qed
next
  case WordB
  obtain left right caps where pos: "pos = (left, right, caps)" by (cases pos)
  have "lower_pos pos = (lower left, lower right, map (\<lambda>(n, g). (n, lower g)) caps)"
    by (simp add: pos lower_pos_def)
  then show ?case
    using WordB [of pos] by (simp add: pos at_word_boundary_lower)
next
  case (Seq a b)
  have inner: "\<And>pos. rel_option Q (rx_match True b pos k) (rx_match True b (lower_pos pos) k')"
    using Seq.IH(2) Seq.prems by blast
  show ?case
    using Seq.IH(1) [of "\<lambda>p. rx_match True b p k" "\<lambda>p. rx_match True b p k'" pos] inner
    by simp
next
  case (Alt a b)
  have ra: "rel_option Q (rx_match True a pos k) (rx_match True a (lower_pos pos) k')"
    using Alt.IH(1) Alt.prems by blast
  have rb: "rel_option Q (rx_match True b pos k) (rx_match True b (lower_pos pos) k')"
    using Alt.IH(2) Alt.prems by blast
  show ?case
    using ra rb
    by (cases "rx_match True a pos k"; cases "rx_match True a (lower_pos pos) k'") simp_all
next
  case (Opt a)
  have ra: "rel_option Q (rx_match True a pos k) (rx_match True a (lower_pos pos) k')"
    using Opt.IH Opt.prems by blast
  show ?case
    using ra Opt.prems [of pos]
    by (cases "rx_match True a pos k"; cases "rx_match True a (lower_pos pos) k'") simp_all
next
  case (Grp n a)
  obtain left right caps where pos: "pos = (left, right, caps)" by (cases pos)
  let ?k = "\<lambda>(left', right', caps').
              k (left', right', (n, take (length right - length right') right) # caps')"
  let ?k' = "\<lambda>(left', right', caps').
              k' (left', right',
                  (n, take (length (lower right) - length right') (lower right)) # caps')"
  have wrap: "\<And>p. rel_option Q (?k p) (?k' (lower_pos p))"
  proof -
    fix p :: rx_pos
    obtain l r c where p: "p = (l, r, c)" by (cases p)
    have "lower_pos (l, r, (n, take (length right - length r) right) # c)
          = (lower l, lower r,
             (n, take (length (lower right) - length (lower r)) (lower right))
               # map (\<lambda>(n, g). (n, lower g)) c)"
      by (simp add: lower_pos_def lower_def take_map)
    then show "rel_option Q (?k p) (?k' (lower_pos p))"
      using Grp.prems [of "(l, r, (n, take (length right - length r) right) # c)"]
      by (simp add: p lower_pos_def)
  qed
  have "rel_option Q (rx_match True a pos ?k) (rx_match True a (lower_pos pos) ?k')"
    using Grp.IH [of ?k ?k' pos] wrap by blast
  then show ?case by (simp add: pos lower_pos_def)
qed

lemma match_at_lower:
  "match_at True r (lower left) (lower right) = map_option lower_found (match_at True r left right)"
proof -
  let ?Q = "\<lambda>p p'. p' = lower_pos p"
  have "rel_option ?Q (rx_match True r (left, right, []) Some)
          (rx_match True r (lower_pos (left, right, [])) Some)"
    by (rule rx_match_lower) simp
  moreover have "lower_pos (left, right, []) = (lower left, lower right, [])"
    by (simp add: lower_pos_def)
  ultimately have rel: "rel_option ?Q (rx_match True r (left, right, []) Some)
          (rx_match True r (lower left, lower right, []) Some)"
    by simp
  show ?thesis
  proof (cases "rx_match True r (left, right, []) Some")
    case None
    then have "rx_match True r (lower left, lower right, []) Some = None"
      using rel by (cases "rx_match True r (lower left, lower right, []) Some") simp_all
    then show ?thesis using None by (simp add: match_at_def)
  next
    case (Some pos)
    obtain l r' c where pos: "pos = (l, r', c)" by (cases pos)
    have "rx_match True r (lower left, lower right, []) Some = Some (lower_pos pos)"
      using rel Some by (cases "rx_match True r (lower left, lower right, []) Some") simp_all
    then show ?thesis
      using Some
      by (simp add: match_at_def pos lower_pos_def lower_found_def lower_def take_map)
  qed
qed

lemma rx_sub_from_lower_gen:
  "ic \<Longrightarrow> lower (rx_sub_from ic r repl left right)
   = rx_sub_from ic r (lower repl) (lower left) (lower right)"
proof (induction ic r repl left right rule: rx_sub_from.induct)
  case (1 ic r repl left right)
  have T: "ic = True" using "1.prems" by simp
  show ?case
  proof (cases "match_at ic r left right")
    case None
    then have low: "match_at ic r (lower left) (lower right) = None"
      by (simp add: T match_at_lower)
    show ?thesis
    proof (cases right)
      case Nil
      have "rx_sub_from ic r repl left [] = []"
        using None Nil by (subst rx_sub_from.simps) simp
      moreover have "rx_sub_from ic r (lower repl) (lower left) [] = []"
        using low Nil by (subst rx_sub_from.simps) (simp add: lower_def)
      ultimately show ?thesis using Nil by (simp add: lower_def)
    next
      case (Cons c cs)
      have a: "rx_sub_from ic r repl left (c # cs) = c # rx_sub_from ic r repl (c # left) cs"
        using None Cons by (subst rx_sub_from.simps) simp
      have b: "rx_sub_from ic r (lower repl) (lower left) (lower_char c # lower cs)
               = lower_char c # rx_sub_from ic r (lower repl) (lower_char c # lower left) (lower cs)"
        using low Cons by (subst rx_sub_from.simps) (simp add: lower_def)
      have ih: "lower (rx_sub_from ic r repl (c # left) cs)
                = rx_sub_from ic r (lower repl) (lower (c # left)) (lower cs)"
        using "1.IH"(1) [OF None Cons "1.prems"] .
      show ?thesis
        using a b ih by (simp add: Cons lower_def)
    qed
  next
    case (Some m)
    then have low: "match_at ic r (lower left) (lower right) = Some (lower_found m)"
      by (simp add: T match_at_lower)
    have rest: "m_rest (lower_found m) = lower (m_rest m)"
      and mtxt: "m_text (lower_found m) = lower (m_text m)"
      by (simp_all add: lower_found_def)
    show ?thesis
    proof (cases "length (m_rest m) < length right")
      case True
      have a: "rx_sub_from ic r repl left right
               = repl @ rx_sub_from ic r repl (rev (m_text m) @ left) (m_rest m)"
        using Some True by (subst rx_sub_from.simps) simp
      have b: "rx_sub_from ic r (lower repl) (lower left) (lower right)
               = lower repl @ rx_sub_from ic r (lower repl)
                   (rev (lower (m_text m)) @ lower left) (lower (m_rest m))"
        using low True rest mtxt by (subst rx_sub_from.simps) (simp add: lower_def)
      have ih: "lower (rx_sub_from ic r repl (rev (m_text m) @ left) (m_rest m))
                = rx_sub_from ic r (lower repl) (lower (rev (m_text m) @ left))
                    (lower (m_rest m))"
        using "1.IH"(2) [OF Some True "1.prems"] .
      show ?thesis
        using a b ih by (simp add: lower_def rev_map)
    next
      case False
      show ?thesis
      proof (cases right)
        case Nil
        have "rx_sub_from ic r repl left [] = repl"
          using Some False Nil by (subst rx_sub_from.simps) simp
        moreover have "rx_sub_from ic r (lower repl) (lower left) [] = lower repl"
          using low False Nil rest by (subst rx_sub_from.simps) (simp add: lower_def)
        ultimately show ?thesis using Nil by (simp add: lower_def)
      next
        case (Cons c cs)
        have a: "rx_sub_from ic r repl left (c # cs)
                 = repl @ c # rx_sub_from ic r repl (c # left) cs"
          using Some False Cons by (subst rx_sub_from.simps) simp
        have b: "rx_sub_from ic r (lower repl) (lower left) (lower_char c # lower cs)
                 = lower repl @ lower_char c
                     # rx_sub_from ic r (lower repl) (lower_char c # lower left) (lower cs)"
          using low False Cons rest by (subst rx_sub_from.simps) (simp add: lower_def)
        have ih: "lower (rx_sub_from ic r repl (c # left) cs)
                  = rx_sub_from ic r (lower repl) (lower (c # left)) (lower cs)"
          using "1.IH"(3) [OF Some False Cons "1.prems"] .
        show ?thesis
          using a b ih by (simp add: Cons lower_def)
      qed
    qed
  qed
qed

lemma rx_sub_lower:
  "lower (rx_sub True r repl s) = rx_sub True r (lower repl) (lower s)"
  using rx_sub_from_lower_gen [of True r repl "[]" s] by (simp add: rx_sub_def lower_def)

lemma lower_eq_space:
  assumes "lower u = '' ''"
  shows "u = '' ''"
proof -
  obtain c where u: "u = [c]" and c: "lower_char c = CHR '' ''"
    using assms by (cases u) (auto simp: lower_def)
  have "code (lower_char c) = 32" using c by (simp add: code_def)
  then have "code c = 32"
    by (simp add: lower_char_code split: if_splits)
  moreover have "code (CHR '' '') = 32" by (simp add: code_def)
  ultimately have "code c = code (CHR '' '')" by simp
  then have "c = CHR '' ''" by (rule code_inject)
  then show ?thesis using u by simp
qed

lemma scene_tags_lower_case:
  "list_all (\<lambda>tag. rx_sub True scene_rx '' '' tag = '' '') scene_tags"
  by code_simp

lemma scene_tag_any_case:
  assumes "lower t \<in> set scene_tags"
  shows "rx_sub True scene_rx '' '' t = '' ''"
proof -
  have "rx_sub True scene_rx '' '' (lower t) = '' ''"
    using assms scene_tags_lower_case by (simp add: list_all_iff)
  moreover have "lower (rx_sub True scene_rx '' '' t) = rx_sub True scene_rx '' '' (lower t)"
    using rx_sub_lower [of scene_rx "'' ''" t] by (simp add: lower_def lower_char_def code_def)
  ultimately have "lower (rx_sub True scene_rx '' '' t) = '' ''" by simp
  then show ?thesis by (rule lower_eq_space)
qed


text \<open>
  C9: the file name \<open>Movie.Title.2020.1080p.BluRay.x264-GROUP.mkv\<close>, with an empty item
  title.  There is no season/episode match; the year hint makes the bucket Movies whatever
  the last bucket was; the cleaned folder name is \<open>Movie Title (2020)\<close>: the dots have become
  single spaces, the tags are gone and the year stands in parentheses.  With Enter at the
  folder prompt the staged file is saved under that folder of the Movies root.  In this name
  the tags stand after the year and go with everything from the year on; where they stand
  before the year, or there is no year, the tag pattern removes them, in any letter case:
  every word of the pattern, however its letters are cased, is replaced by a space, and the
  replacement of a text in lower case is the lower case of the replacement of the text.
\<close>

theorem movie_title_example:
  "detect_episode ''Movie.Title.2020.1080p.BluRay.x264-GROUP.mkv'' [] = None
   \<and> decide_bucket st ''Movie.Title.2020.1080p.BluRay.x264-GROUP.mkv'' [] = ''Movies''
   \<and> auto_clean_movie_folder_name [] ''Movie.Title.2020.1080p.BluRay.x264-GROUP.mkv''
       = ''Movie Title (2020)''
   \<and> map_option fst (choose_bucket_and_path
         \<lparr>status = [], mode = ''DOWNLOADING'', query_text = [], query_built = [],
          media_filter = ''movies'', title_only = False, page = 1, results = [], sel_r = 0,
          files = [], last_bucket = ''Other'', focus = ''MENU'', menu_idx = 0,
          favs = \<lparr>items = [], files_fav = [], folders = Map.empty\<rparr>\<rparr>
         \<lparr>term_h = 24, term_w = 80, keys = [10], stamp = ''20240101_120000'',
          fs = [''/mnt/ssd/media/.ia_staging/item1/Movie.Title.2020.1080p.BluRay.x264-GROUP.mkv''
                  \<mapsto> ''data''],
          dirs = [''/mnt'', ''/mnt/ssd'', ''/mnt/ssd/media'', ''/mnt/ssd/media/.ia_staging'',
                  ''/mnt/ssd/media/.ia_staging/item1'', ''/mnt/ssd/media/TV'',
                  ''/mnt/ssd/media/Movies'', ''/mnt/ssd/media/Other'']\<rparr>
         ''item1'' ''Movie.Title.2020.1080p.BluRay.x264-GROUP.mkv'' [])
       = Some (Returned (''Saved: /mnt/ssd/media/Movies/Movie Title (2020)/''
               @ ''Movie.Title.2020.1080p.BluRay.x264-GROUP.mkv''))
   \<and> auto_clean_movie_folder_name [] ''Movie.Title.1080P.BLURAY.x264.2020.mkv''
       = ''Movie Title (2020)''
   \<and> auto_clean_movie_folder_name [] ''Movie.Title.1080P.BLURAY.x264.mkv'' = ''Movie Title''
   \<and> (lower t \<in> set scene_tags \<longrightarrow> rx_sub True scene_rx '' '' t = '' '')
   \<and> lower (rx_sub True scene_rx '' '' s) = rx_sub True scene_rx '' '' (lower s)"
proof -
  let ?fn = "''Movie.Title.2020.1080p.BluRay.x264-GROUP.mkv''"
  have ep: "detect_episode ?fn [] = None" by code_simp
  have yr: "has_year_hint ?fn" by code_simp
  have bucket: "decide_bucket st ?fn [] = ''Movies''"
    using ep yr by (simp add: decide_bucket_def detect_episode_def Let_def)
  have nm: "auto_clean_movie_folder_name [] ?fn = ''Movie Title (2020)''" by code_simp
  have run: "map_option fst (choose_bucket_and_path
         \<lparr>status = [], mode = ''DOWNLOADING'', query_text = [], query_built = [],
          media_filter = ''movies'', title_only = False, page = 1, results = [], sel_r = 0,
          files = [], last_bucket = ''Other'', focus = ''MENU'', menu_idx = 0,
          favs = \<lparr>items = [], files_fav = [], folders = Map.empty\<rparr>\<rparr>
         \<lparr>term_h = 24, term_w = 80, keys = [10], stamp = ''20240101_120000'',
          fs = [''/mnt/ssd/media/.ia_staging/item1/Movie.Title.2020.1080p.BluRay.x264-GROUP.mkv''
                  \<mapsto> ''data''],
          dirs = [''/mnt'', ''/mnt/ssd'', ''/mnt/ssd/media'', ''/mnt/ssd/media/.ia_staging'',
                  ''/mnt/ssd/media/.ia_staging/item1'', ''/mnt/ssd/media/TV'',
                  ''/mnt/ssd/media/Movies'', ''/mnt/ssd/media/Other'']\<rparr>
         ''item1'' ?fn [])
       = Some (Returned (''Saved: /mnt/ssd/media/Movies/Movie Title (2020)/''
               @ ''Movie.Title.2020.1080p.BluRay.x264-GROUP.mkv''))"
    by code_simp
  have before_year: "auto_clean_movie_folder_name [] ''Movie.Title.1080P.BLURAY.x264.2020.mkv''
       = ''Movie Title (2020)''"
    by code_simp
  have no_year: "auto_clean_movie_folder_name [] ''Movie.Title.1080P.BLURAY.x264.mkv''
       = ''Movie Title''"
    by code_simp
  have tags: "lower t \<in> set scene_tags \<longrightarrow> rx_sub True scene_rx '' '' t = '' ''"
    using scene_tag_any_case by blast
  have fold: "lower (rx_sub True scene_rx '' '' s) = rx_sub True scene_rx '' '' (lower s)"
    using rx_sub_lower [of scene_rx "'' ''" s] by (simp add: lower_def lower_char_def code_def)
  from ep bucket nm run before_year no_year tags fold show ?thesis by blast
qed

theorem movie_title_example_witness:
  "rx_sub True scene_rx '' '' ''BluRay'' = '' ''"
proof -
  have h: "lower ''BluRay'' \<in> set scene_tags" by code_simp
  from movie_title_example [of _ "''BluRay''"] h show ?thesis by blast
qed

text \<open>
  Two things the tag pattern does not remove.  The release group after the hyphen is not a
  word of the pattern: without the year it stays in the folder name.  And the words of the
  pattern that are written with a dot are looked for after the dots of the name have become
  spaces, so they are not found in a name.
\<close>

lemma group_suffix_stays:
  "auto_clean_movie_folder_name [] ''Movie.Title.1080p.BluRay.x264-GROUP.mkv''
   = ''Movie Title -GROUP''"
  by code_simp

lemma dotted_tag_stays:
  "auto_clean_movie_folder_name [] ''Movie.Title.AAC2.0.mkv'' = ''Movie Title AAC2 0''"
  by code_simp

end
